theory Spec2Isabelle
  imports Main "HOL-Library.Char_ord" "HOL-Library.AList"
begin

section \<open>Python values and the library functions the validators call\<close>

text \<open>
  The two validators (\<^verbatim>\<open>server_validation.RegistrationValidator\<close> and
  \<^verbatim>\<open>forms.registration_form.RegistrationForm\<close>) receive a dictionary whose values
  are strings, numbers or \<^verbatim>\<open>None\<close>. A Python string is modelled as a \<open>string\<close> with
  one \<open>char\<close> per code point, so the model covers the code points 0 to 255; \<open>length\<close> is
  Python's \<^verbatim>\<open>len\<close>. A number is an integer or a float. A float is an infinity, a
  NaN, or the finite value \<open>m * 2 ^ e\<close> written \<open>Finite m e\<close>: every finite double has
  this form, and the model bounds neither \<open>m\<close> nor \<open>e\<close>.
\<close>

datatype pyfloat = Finite int int | PosInf | NegInf | NaN

datatype pyval = PyNone | PyStr string | PyInt int | PyFloat pyfloat

datatype pyerror = AttributeError | TypeError | ValueError | OverflowError

text \<open>Truth value of an object, as \<^verbatim>\<open>not value\<close> and \<^verbatim>\<open>if value\<close> test it.\<close>

fun float_is_zero :: "pyfloat \<Rightarrow> bool" where
  "float_is_zero (Finite m e) = (m = 0)"
| "float_is_zero f = False"

fun truthy :: "pyval \<Rightarrow> bool" where
  "truthy PyNone = False"
| "truthy (PyStr s) = (s \<noteq> [])"
| "truthy (PyInt n) = (n \<noteq> 0)"
| "truthy (PyFloat f) = (\<not> float_is_zero f)"

text \<open>
  \<^verbatim>\<open>a == b\<close>: an integer and a float are compared by value, a NaN equals nothing, and
  values of other types are equal only when they are the same.
\<close>

fun float_eq :: "pyfloat \<Rightarrow> pyfloat \<Rightarrow> bool" where
  "float_eq (Finite m e) (Finite m' e') =
     (m * 2 ^ nat (e - min e e') = m' * 2 ^ nat (e' - min e e'))"
| "float_eq PosInf PosInf = True"
| "float_eq NegInf NegInf = True"
| "float_eq f g = False"

fun py_eq :: "pyval \<Rightarrow> pyval \<Rightarrow> bool" where
  "py_eq (PyInt a) (PyFloat g) = float_eq (Finite a 0) g"
| "py_eq (PyFloat f) (PyInt b) = float_eq f (Finite b 0)"
| "py_eq (PyFloat f) (PyFloat g) = float_eq f g"
| "py_eq a b = (a = b)"

text \<open>\<^verbatim>\<open>len(x)\<close>: defined on strings, a \<^verbatim>\<open>TypeError\<close> on numbers and \<^verbatim>\<open>None\<close>.\<close>

fun py_len :: "pyval \<Rightarrow> pyerror + nat" where
  "py_len (PyStr s) = Inr (length s)"
| "py_len v = Inl TypeError"

subsection \<open>Character classes\<close>

text \<open>
  \<^verbatim>\<open>str.isspace\<close>, \<^verbatim>\<open>str.strip\<close>, \<^verbatim>\<open>str.split\<close> and the regular expression class
  \<^verbatim>\<open>\s\<close> share one whitespace table; below code point 256 it holds 0x09-0x0D, 0x1C-0x20,
  0x85 and 0xA0. The class \<^verbatim>\<open>\d\<close> holds the decimal digits, below 256 only 0-9.
\<close>

definition is_space :: "char \<Rightarrow> bool" where
  "is_space c \<longleftrightarrow>
     (CHR 0x09 \<le> c \<and> c \<le> CHR 0x0D) \<or> (CHR 0x1C \<le> c \<and> c \<le> CHR 0x20) \<or>
     c = CHR 0x85 \<or> c = CHR 0xA0"

definition is_digit :: "char \<Rightarrow> bool" where
  "is_digit c \<longleftrightarrow> CHR ''0'' \<le> c \<and> c \<le> CHR ''9''"

definition is_upper :: "char \<Rightarrow> bool" where
  "is_upper c \<longleftrightarrow> CHR ''A'' \<le> c \<and> c \<le> CHR ''Z''"

definition is_lower :: "char \<Rightarrow> bool" where
  "is_lower c \<longleftrightarrow> CHR ''a'' \<le> c \<and> c \<le> CHR ''z''"

subsection \<open>String methods\<close>

text \<open>\<^verbatim>\<open>s.strip()\<close> removes the whitespace at both ends.\<close>

definition str_strip :: "string \<Rightarrow> string" where
  "str_strip s = rev (dropWhile is_space (rev (dropWhile is_space s)))"

text \<open>\<^verbatim>\<open>value.strip()\<close> on an object: only strings have the method.\<close>

fun strip_method :: "pyval \<Rightarrow> pyerror + string" where
  "strip_method (PyStr s) = Inr (str_strip s)"
| "strip_method v = Inl AttributeError"

text \<open>
  \<^verbatim>\<open>s.split()\<close> with no argument: the maximal runs of non-whitespace characters, in
  order. \<open>split_from w s\<close> scans \<open>s\<close> with the word \<open>w\<close> read so far.
\<close>

fun split_from :: "string \<Rightarrow> string \<Rightarrow> string list" where
  "split_from w [] = (if w = [] then [] else [w])"
| "split_from w (c # cs) =
     (if is_space c then (if w = [] then split_from [] cs else w # split_from [] cs)
      else split_from (w @ [c]) cs)"

definition str_split :: "string \<Rightarrow> string list" where
  "str_split s = split_from [] s"

text \<open>\<^verbatim>\<open>sep.join(words)\<close>.\<close>

fun str_join :: "string \<Rightarrow> string list \<Rightarrow> string" where
  "str_join sep [] = []"
| "str_join sep [w] = w"
| "str_join sep (w # ws) = w @ sep @ str_join sep ws"

text \<open>
  \<^verbatim>\<open>field_name.replace('_', ' ').title()\<close>, used to build the messages. The field names
  are ASCII identifiers, and the two functions are modelled on ASCII letters: \<open>title\<close>
  upper-cases a letter that follows a non-letter and lower-cases one that follows a letter.
\<close>

definition replace_underscore :: "string \<Rightarrow> string" where
  "replace_underscore s = map (\<lambda>c. if c = CHR ''_'' then CHR '' '' else c) s"

definition to_upper :: "char \<Rightarrow> char" where
  "to_upper c = (if is_lower c then char_of (of_char c - (32::nat)) else c)"

definition to_lower :: "char \<Rightarrow> char" where
  "to_lower c = (if is_upper c then char_of (of_char c + (32::nat)) else c)"

fun title_from :: "bool \<Rightarrow> string \<Rightarrow> string" where
  "title_from prev_cased [] = []"
| "title_from prev_cased (c # cs) =
     (if is_lower c then (if prev_cased then c else to_upper c) # title_from True cs
      else if is_upper c then (if prev_cased then to_lower c else c) # title_from True cs
      else c # title_from False cs)"

definition title :: "string \<Rightarrow> string" where
  "title s = title_from False s"

definition field_label :: "string \<Rightarrow> string" where
  "field_label field_name = title (replace_underscore field_name)"

subsection \<open>Regular expressions\<close>

text \<open>
  The patterns of the two modules are sequences of anchors, look-aheads and repeated
  character classes. A class is a list of characters, ranges, \<^verbatim>\<open>\d\<close> and \<^verbatim>\<open>\s\<close>,
  possibly negated; \<open>Dot\<close> is \<^verbatim>\<open>.\<close>, every character but the newline.
\<close>

datatype citem = Ch char | Rng char char | Digit | Space

datatype cset = In "citem list" | NotIn "citem list" | Dot

fun in_citem :: "citem \<Rightarrow> char \<Rightarrow> bool" where
  "in_citem (Ch a) c = (c = a)"
| "in_citem (Rng a b) c = (a \<le> c \<and> c \<le> b)"
| "in_citem Digit c = is_digit c"
| "in_citem Space c = is_space c"

fun in_cset :: "cset \<Rightarrow> char \<Rightarrow> bool" where
  "in_cset (In items) c = list_ex (\<lambda>i. in_citem i c) items"
| "in_cset (NotIn items) c = (\<not> list_ex (\<lambda>i. in_citem i c) items)"
| "in_cset Dot c = (c \<noteq> CHR 0x0A)"

text \<open>
  \<open>Bol\<close> is \<^verbatim>\<open>^\<close>, \<open>Eol\<close> is \<^verbatim>\<open>$\<close>, \<open>Rep cs lo hi\<close> is the class \<open>cs\<close> repeated
  \<open>lo\<close> to \<open>hi\<close> times (\<open>None\<close>: unbounded), \<open>Look ps\<close> is \<^verbatim>\<open>(?=ps)\<close>.
\<close>

datatype piece = Bol | Eol | Rep cset nat "nat option" | Look "piece list"

text \<open>
  \<open>rmatch ps at_start s\<close>: the pattern \<open>ps\<close> matches a prefix of \<open>s\<close>, where \<open>at_start\<close>
  tells whether \<open>s\<close> is the whole subject. Without flags, \<^verbatim>\<open>^\<close> matches at the start of
  the subject only, and \<^verbatim>\<open>$\<close> matches at the end of the subject and also just before a
  newline that ends it. The matcher of \<^verbatim>\<open>re\<close> backtracks over the number of repetitions,
  so a repetition followed by the rest of the pattern matches when some admissible number
  of repetitions lets the rest match.
\<close>

fun rmatch :: "piece list \<Rightarrow> bool \<Rightarrow> string \<Rightarrow> bool" where
  "rmatch [] at_start s = True"
| "rmatch (Bol # ps) at_start s = (at_start \<and> rmatch ps at_start s)"
| "rmatch (Eol # ps) at_start s = ((s = [] \<or> s = [CHR 0x0A]) \<and> rmatch ps at_start s)"
| "rmatch (Look qs # ps) at_start s = (rmatch qs at_start s \<and> rmatch ps at_start s)"
| "rmatch (Rep cs lo hi # ps) at_start s =
     (let n = length (takeWhile (in_cset cs) s);
          m = (case hi of None \<Rightarrow> n | Some h \<Rightarrow> min n h)
      in list_ex (\<lambda>k. rmatch ps (at_start \<and> k = 0) (drop k s)) [lo..<Suc m])"

text \<open>\<^verbatim>\<open>pattern.match(s)\<close> is not \<^verbatim>\<open>None\<close>; a \<^verbatim>\<open>TypeError\<close> when \<open>s\<close> is no string.\<close>

fun re_match :: "piece list \<Rightarrow> pyval \<Rightarrow> pyerror + bool" where
  "re_match ps (PyStr s) = Inr (rmatch ps True s)"
| "re_match ps v = Inl TypeError"

text \<open>\<^verbatim>\<open>re.search(pattern, s)\<close> is not \<^verbatim>\<open>None\<close>: a match starting at some position.\<close>

fun re_search :: "piece list \<Rightarrow> pyval \<Rightarrow> pyerror + bool" where
  "re_search ps (PyStr s) =
     Inr (list_ex (\<lambda>k. rmatch ps (k = 0) (drop k s)) [0..<Suc (length s)])"
| "re_search ps v = Inl TypeError"

text \<open>
  \<^verbatim>\<open>re.sub(pattern, repl, s)\<close> for a pattern that is one character class: every
  character of the class is replaced by \<open>repl\<close>.
\<close>

fun re_sub_class :: "cset \<Rightarrow> string \<Rightarrow> pyval \<Rightarrow> pyerror + string" where
  "re_sub_class cs repl (PyStr s) =
     Inr (concat (map (\<lambda>c. if in_cset cs c then repl else [c]) s))"
| "re_sub_class cs repl v = Inl TypeError"


abbreviation One :: "cset \<Rightarrow> piece" where
  "One cs \<equiv> Rep cs 1 (Some 1)"

abbreviation Plus :: "cset \<Rightarrow> piece" where
  "Plus cs \<equiv> Rep cs 1 None"

abbreviation Star :: "cset \<Rightarrow> piece" where
  "Star cs \<equiv> Rep cs 0 None"

subsection \<open>Conversion to an integer\<close>

text \<open>
  \<^verbatim>\<open>int(x)\<close>: an integer is returned as it is, \<^verbatim>\<open>None\<close> raises \<^verbatim>\<open>TypeError\<close>, a
  finite float is truncated towards zero, a NaN raises \<^verbatim>\<open>ValueError\<close>, an infinity raises
  \<^verbatim>\<open>OverflowError\<close>, and a string is parsed in base 10 or raises \<^verbatim>\<open>ValueError\<close>. The parser drops the whitespace
  around the literal (0x09-0x0D, 0x20, 0x85 and 0xA0; not 0x1C-0x1F), reads one optional
  sign and then digits, where single underscores may stand between two digits. The
  interpreter refuses a literal of more than \<open>lim\<close> digits unless \<open>lim\<close> is 0
  (\<^verbatim>\<open>sys.get_int_max_str_digits()\<close>, 4300 by default, absent in older interpreters).
\<close>

definition is_int_space :: "char \<Rightarrow> bool" where
  "is_int_space c \<longleftrightarrow>
     (CHR 0x09 \<le> c \<and> c \<le> CHR 0x0D) \<or> c = CHR 0x20 \<or> c = CHR 0x85 \<or> c = CHR 0xA0"

definition digit_val :: "char \<Rightarrow> int" where
  "digit_val c = int (of_char c) - 48"

fun int_digits :: "bool \<Rightarrow> int \<Rightarrow> string \<Rightarrow> int option" where
  "int_digits prev_digit acc [] = (if prev_digit then Some acc else None)"
| "int_digits prev_digit acc (c # cs) =
     (if is_digit c then int_digits True (10 * acc + digit_val c) cs
      else if c = CHR ''_'' \<and> prev_digit then int_digits False acc cs
      else None)"

definition int_of_str :: "nat \<Rightarrow> string \<Rightarrow> int option" where
  "int_of_str lim s =
     (let t = rev (dropWhile is_int_space (rev (dropWhile is_int_space s)));
          neg = (t \<noteq> [] \<and> hd t = CHR ''-'');
          body = (if t \<noteq> [] \<and> (hd t = CHR ''-'' \<or> hd t = CHR ''+'') then tl t else t)
      in if lim \<noteq> 0 \<and> lim < length (filter is_digit body) then None
         else map_option (\<lambda>n. if neg then - n else n) (int_digits False 0 body))"

definition float_trunc :: "int \<Rightarrow> int \<Rightarrow> int" where
  "float_trunc m e =
     (if 0 \<le> e then m * 2 ^ nat e
      else if 0 \<le> m then m div 2 ^ nat (- e)
      else - ((- m) div 2 ^ nat (- e)))"

fun int_of_float :: "pyfloat \<Rightarrow> pyerror + int" where
  "int_of_float (Finite m e) = Inr (float_trunc m e)"
| "int_of_float NaN = Inl ValueError"
| "int_of_float PosInf = Inl OverflowError"
| "int_of_float NegInf = Inl OverflowError"

fun py_int :: "nat \<Rightarrow> pyval \<Rightarrow> pyerror + int" where
  "py_int lim (PyInt n) = Inr n"
| "py_int lim (PyFloat f) = int_of_float f"
| "py_int lim (PyStr s) = (case int_of_str lim s of None \<Rightarrow> Inl ValueError | Some n \<Rightarrow> Inr n)"
| "py_int lim PyNone = Inl TypeError"

text \<open>\<^verbatim>\<open>data.get(key, default)\<close> on the input dictionary.\<close>

definition dict_get :: "(string \<rightharpoonup> pyval) \<Rightarrow> string \<Rightarrow> pyval \<Rightarrow> pyval" where
  "dict_get d k dflt = (case d k of None \<Rightarrow> dflt | Some v \<Rightarrow> v)"

section \<open>\<^verbatim>\<open>server_validation.RegistrationValidator\<close>\<close>

text \<open>
  The instance holds the dictionary \<^verbatim>\<open>self.errors\<close>, from field name to message, in
  insertion order. A method takes the instance and returns its result, a raised
  exception or the returned value, together with the instance as the call leaves it.
\<close>

record validator =
  errors :: "(string \<times> string) list"

definition init_validator :: validator where
  "init_validator = \<lparr>errors = []\<rparr>"

text \<open>\<^verbatim>\<open>self.errors[field_name] = message\<close>\<close>

definition set_error :: "string \<Rightarrow> string \<Rightarrow> validator \<Rightarrow> validator" where
  "set_error field_name message self = self\<lparr>errors := AList.update field_name message (errors self)\<rparr>"

definition EMAIL_REGEX :: "piece list" where
  "EMAIL_REGEX =
     [Bol, Plus (NotIn [Space, Ch CHR ''@'']), One (In [Ch CHR ''@'']),
      Plus (NotIn [Space, Ch CHR ''@'']), One (In [Ch CHR ''.'']),
      Plus (NotIn [Space, Ch CHR ''@'']), Eol]"

definition password_specials :: "citem list" where
  "password_specials =
     [Ch CHR ''@'', Ch CHR ''$'', Ch CHR ''!'', Ch CHR ''%'', Ch CHR ''*'', Ch CHR ''?'',
      Ch CHR ''&'', Ch CHR ''#'']"

definition PASSWORD_REGEX :: "piece list" where
  "PASSWORD_REGEX =
     [Bol,
      Look [Star Dot, One (In [Rng CHR ''a'' CHR ''z''])],
      Look [Star Dot, One (In [Rng CHR ''A'' CHR ''Z''])],
      Look [Star Dot, One (In [Digit])],
      Look [Star Dot, One (In password_specials)],
      Rep (In ([Rng CHR ''A'' CHR ''Z'', Rng CHR ''a'' CHR ''z'', Digit] @ password_specials))
        8 None,
      Eol]"

text \<open>The pattern of \<^verbatim>\<open>validate_name\<close>; \<open>CHR 0x27\<close> is the apostrophe.\<close>

definition NAME_REGEX :: "piece list" where
  "NAME_REGEX =
     [Bol, Plus (In [Rng CHR ''a'' CHR ''z'', Rng CHR ''A'' CHR ''Z'', Ch CHR '' '',
                     Ch (CHR 0x27), Ch CHR ''-'']), Eol]"

definition validate_required ::
  "string \<Rightarrow> pyval \<Rightarrow> validator \<Rightarrow> (pyerror + bool) \<times> validator" where
  "validate_required field_name v self =
     (if \<not> truthy v
      then (Inr False, set_error field_name (field_label field_name @ '' is required'') self)
      else case strip_method v of
             Inl e \<Rightarrow> (Inl e, self)
           | Inr t \<Rightarrow>
               if t = []
               then (Inr False,
                     set_error field_name (field_label field_name @ '' is required'') self)
               else (Inr True, self))"

definition validate_email :: "pyval \<Rightarrow> validator \<Rightarrow> (pyerror + bool) \<times> validator" where
  "validate_email email self =
     (case validate_required ''email'' email self of
        (Inl e, self1) \<Rightarrow> (Inl e, self1)
      | (Inr False, self1) \<Rightarrow> (Inr False, self1)
      | (Inr True, self1) \<Rightarrow>
          (case re_match EMAIL_REGEX email of
             Inl e \<Rightarrow> (Inl e, self1)
           | Inr False \<Rightarrow>
               (Inr False, set_error ''email'' ''Please enter a valid email address'' self1)
           | Inr True \<Rightarrow>
               (case py_len email of
                  Inl e \<Rightarrow> (Inl e, self1)
                | Inr n \<Rightarrow>
                    if 254 < n
                    then (Inr False, set_error ''email'' ''Email address is too long'' self1)
                    else (Inr True, self1))))"

definition password_policy_message :: string where
  "password_policy_message =
     ''Password must contain at least one uppercase letter, '' @
     ''one lowercase letter, one digit, and one special character (@$!%*?&#)''"

definition validate_password :: "pyval \<Rightarrow> validator \<Rightarrow> (pyerror + bool) \<times> validator" where
  "validate_password password self =
     (case validate_required ''password'' password self of
        (Inl e, self1) \<Rightarrow> (Inl e, self1)
      | (Inr False, self1) \<Rightarrow> (Inr False, self1)
      | (Inr True, self1) \<Rightarrow>
          (case py_len password of
             Inl e \<Rightarrow> (Inl e, self1)
           | Inr n \<Rightarrow>
               if n < 8
               then (Inr False,
                     set_error ''password'' ''Password must be at least 8 characters long'' self1)
               else if 128 < n
               then (Inr False,
                     set_error ''password'' ''Password is too long (max 128 characters)'' self1)
               else (case re_match PASSWORD_REGEX password of
                       Inl e \<Rightarrow> (Inl e, self1)
                     | Inr False \<Rightarrow>
                         (Inr False, set_error ''password'' password_policy_message self1)
                     | Inr True \<Rightarrow> (Inr True, self1))))"

definition validate_password_match ::
  "pyval \<Rightarrow> pyval \<Rightarrow> validator \<Rightarrow> (pyerror + bool) \<times> validator" where
  "validate_password_match password confirm_password self =
     (case validate_required ''confirm_password'' confirm_password self of
        (Inl e, self1) \<Rightarrow> (Inl e, self1)
      | (Inr False, self1) \<Rightarrow> (Inr False, self1)
      | (Inr True, self1) \<Rightarrow>
          if \<not> py_eq password confirm_password
          then (Inr False, set_error ''confirm_password'' ''Passwords do not match'' self1)
          else (Inr True, self1))"

definition validate_name ::
  "string \<Rightarrow> pyval \<Rightarrow> validator \<Rightarrow> (pyerror + bool) \<times> validator" where
  "validate_name field_name v self =
     (case validate_required field_name v self of
        (Inl e, self1) \<Rightarrow> (Inl e, self1)
      | (Inr False, self1) \<Rightarrow> (Inr False, self1)
      | (Inr True, self1) \<Rightarrow>
          (case strip_method v of
             Inl e \<Rightarrow> (Inl e, self1)
           | Inr t \<Rightarrow>
               if length t < 2
               then (Inr False,
                     set_error field_name
                       (field_label field_name @ '' must be at least 2 characters'') self1)
               else (case py_len v of
                       Inl e \<Rightarrow> (Inl e, self1)
                     | Inr n \<Rightarrow>
                         if 50 < n
                         then (Inr False,
                               set_error field_name
                                 (field_label field_name @ '' is too long (max 50 characters)'')
                                 self1)
                         else (case re_match NAME_REGEX v of
                                 Inl e \<Rightarrow> (Inl e, self1)
                               | Inr False \<Rightarrow>
                                   (Inr False,
                                    set_error field_name
                                      (field_label field_name @ '' can only contain letters, '' @
                                       ''spaces, hyphens, and apostrophes'') self1)
                               | Inr True \<Rightarrow> (Inr True, self1)))))"

text \<open>
  \<^verbatim>\<open>validate_registration\<close> resets \<^verbatim>\<open>self.errors\<close>, reads the five fields with the
  default \<^verbatim>\<open>''\<close>, runs the five checks in order and returns the conjunction of their
  results with \<^verbatim>\<open>self.errors\<close>. An exception of a check ends the call.
\<close>

definition validate_registration ::
  "(string \<rightharpoonup> pyval) \<Rightarrow> validator \<Rightarrow> (pyerror + bool \<times> (string \<times> string) list) \<times> validator" where
  "validate_registration data self =
     (let self0 = self\<lparr>errors := []\<rparr>;
          first_name = dict_get data ''first_name'' (PyStr []);
          last_name = dict_get data ''last_name'' (PyStr []);
          email = dict_get data ''email'' (PyStr []);
          password = dict_get data ''password'' (PyStr []);
          confirm_password = dict_get data ''confirm_password'' (PyStr [])
      in case validate_name ''first_name'' first_name self0 of
           (Inl e, self1) \<Rightarrow> (Inl e, self1)
         | (Inr first_name_valid, self1) \<Rightarrow>
      (case validate_name ''last_name'' last_name self1 of
           (Inl e, self2) \<Rightarrow> (Inl e, self2)
         | (Inr last_name_valid, self2) \<Rightarrow>
      (case validate_email email self2 of
           (Inl e, self3) \<Rightarrow> (Inl e, self3)
         | (Inr email_valid, self3) \<Rightarrow>
      (case validate_password password self3 of
           (Inl e, self4) \<Rightarrow> (Inl e, self4)
         | (Inr password_valid, self4) \<Rightarrow>
      (case validate_password_match password confirm_password self4 of
           (Inl e, self5) \<Rightarrow> (Inl e, self5)
         | (Inr password_match_valid, self5) \<Rightarrow>
             (Inr (first_name_valid \<and> last_name_valid \<and> email_valid \<and> password_valid \<and>
                   password_match_valid, errors self5), self5))))))"

text \<open>The module function \<^verbatim>\<open>validate_registration_data\<close> uses a new instance.\<close>

definition validate_registration_data ::
  "(string \<rightharpoonup> pyval) \<Rightarrow> pyerror + bool \<times> (string \<times> string) list" where
  "validate_registration_data data = fst (validate_registration data init_validator)"

definition CONTROL_CHARS :: cset where
  "CONTROL_CHARS = In [Rng (CHR 0x00) (CHR 0x1F), Ch (CHR 0x7F)]"

definition sanitize_input :: "pyval \<Rightarrow> pyerror + string" where
  "sanitize_input v =
     (if \<not> truthy v then Inr []
      else case re_sub_class CONTROL_CHARS [] v of
             Inl e \<Rightarrow> Inl e
           | Inr sanitized \<Rightarrow> Inr (str_strip (str_join '' '' (str_split sanitized))))"

section \<open>\<^verbatim>\<open>forms.registration_form.RegistrationForm\<close>\<close>

text \<open>
  The instance holds the list \<^verbatim>\<open>self.errors\<close> of messages and the dictionary
  \<^verbatim>\<open>self.data\<close> of the last call of \<^verbatim>\<open>validate\<close>.
\<close>

record registration_form =
  form_errors :: "string list"
  form_data :: "string \<rightharpoonup> pyval"

definition init_form :: registration_form where
  "init_form = \<lparr>form_errors = [], form_data = Map.empty\<rparr>"

text \<open>\<^verbatim>\<open>self.errors.append(message)\<close>\<close>

definition append_error :: "string \<Rightarrow> registration_form \<Rightarrow> registration_form" where
  "append_error message self = self\<lparr>form_errors := form_errors self @ [message]\<rparr>"

definition alnum :: "citem list" where
  "alnum = [Rng CHR ''a'' CHR ''z'', Rng CHR ''A'' CHR ''Z'', Rng CHR ''0'' CHR ''9'']"

definition USERNAME_PATTERN :: "piece list" where
  "USERNAME_PATTERN = [Bol, Rep (In (alnum @ [Ch CHR ''_''])) 3 (Some 20), Eol]"

definition EMAIL_PATTERN :: "piece list" where
  "EMAIL_PATTERN =
     [Bol,
      Plus (In (alnum @ [Ch CHR ''.'', Ch CHR ''_'', Ch CHR ''%'', Ch CHR ''+'', Ch CHR ''-''])),
      One (In [Ch CHR ''@'']),
      Plus (In (alnum @ [Ch CHR ''.'', Ch CHR ''-''])),
      One (In [Ch CHR ''.'']),
      Rep (In [Rng CHR ''a'' CHR ''z'', Rng CHR ''A'' CHR ''Z'']) 2 None,
      Eol]"

definition PASSWORD_MIN_LENGTH :: nat where
  "PASSWORD_MIN_LENGTH = 8"

definition PHONE_PATTERN :: "piece list" where
  "PHONE_PATTERN =
     [Bol,
      Rep (In [Digit, Space, Ch CHR ''-'', Ch CHR ''+'', Ch CHR ''('', Ch CHR '')'']) 10 None,
      Eol]"

definition MIN_AGE :: int where
  "MIN_AGE = 13"

text \<open>
  The class of the last check of \<^verbatim>\<open>validate_password\<close>; \<open>CHR 0x22\<close> is the double
  quote.
\<close>

definition form_specials :: "citem list" where
  "form_specials =
     [Ch CHR ''!'', Ch CHR ''@'', Ch CHR ''#'', Ch CHR ''$'', Ch CHR ''%'', Ch CHR ''^'',
      Ch CHR ''&'', Ch CHR ''*'', Ch CHR ''('', Ch CHR '')'', Ch CHR '','', Ch CHR ''.'',
      Ch CHR ''?'', Ch (CHR 0x22), Ch CHR '':'', Ch CHR ''{'', Ch CHR ''}'', Ch CHR ''|'',
      Ch CHR ''<'', Ch CHR ''>'']"

definition validate_username ::
  "pyval \<Rightarrow> registration_form \<Rightarrow> (pyerror + bool) \<times> registration_form" where
  "validate_username username self =
     (if \<not> truthy username then (Inr False, append_error ''Username is required'' self)
      else case re_match USERNAME_PATTERN username of
             Inl e \<Rightarrow> (Inl e, self)
           | Inr False \<Rightarrow>
               (Inr False,
                append_error
                  (''Username must be 3-20 characters long and contain only '' @
                   ''letters, numbers, and underscores'') self)
           | Inr True \<Rightarrow> (Inr True, self))"

definition form_validate_email ::
  "pyval \<Rightarrow> registration_form \<Rightarrow> (pyerror + bool) \<times> registration_form" where
  "form_validate_email email self =
     (if \<not> truthy email then (Inr False, append_error ''Email is required'' self)
      else case re_match EMAIL_PATTERN email of
             Inl e \<Rightarrow> (Inl e, self)
           | Inr False \<Rightarrow> (Inr False, append_error ''Invalid email format'' self)
           | Inr True \<Rightarrow> (Inr True, self))"

definition form_validate_password ::
  "pyval \<Rightarrow> registration_form \<Rightarrow> (pyerror + bool) \<times> registration_form" where
  "form_validate_password password self =
     (if \<not> truthy password then (Inr False, append_error ''Password is required'' self)
      else case py_len password of
        Inl e \<Rightarrow> (Inl e, self)
      | Inr n \<Rightarrow>
          if n < PASSWORD_MIN_LENGTH
          then (Inr False,
                append_error ''Password must be at least 8 characters long'' self)
          else (case re_search [One (In [Rng CHR ''A'' CHR ''Z''])] password of
            Inl e \<Rightarrow> (Inl e, self)
          | Inr False \<Rightarrow>
              (Inr False,
               append_error ''Password must contain at least one uppercase letter'' self)
          | Inr True \<Rightarrow>
          (case re_search [One (In [Rng CHR ''a'' CHR ''z''])] password of
            Inl e \<Rightarrow> (Inl e, self)
          | Inr False \<Rightarrow>
              (Inr False,
               append_error ''Password must contain at least one lowercase letter'' self)
          | Inr True \<Rightarrow>
          (case re_search [One (In [Digit])] password of
            Inl e \<Rightarrow> (Inl e, self)
          | Inr False \<Rightarrow>
              (Inr False, append_error ''Password must contain at least one number'' self)
          | Inr True \<Rightarrow>
          (case re_search [One (In form_specials)] password of
            Inl e \<Rightarrow> (Inl e, self)
          | Inr False \<Rightarrow>
              (Inr False,
               append_error ''Password must contain at least one special character'' self)
          | Inr True \<Rightarrow> (Inr True, self))))))"

definition validate_password_confirmation ::
  "pyval \<Rightarrow> pyval \<Rightarrow> registration_form \<Rightarrow> (pyerror + bool) \<times> registration_form" where
  "validate_password_confirmation password confirm_password self =
     (if \<not> truthy confirm_password
      then (Inr False, append_error ''Password confirmation is required'' self)
      else if \<not> py_eq password confirm_password
      then (Inr False, append_error ''Passwords do not match'' self)
      else (Inr True, self))"

text \<open>
  \<^verbatim>\<open>validate_age\<close>: the \<^verbatim>\<open>try\<close> block catches \<^verbatim>\<open>ValueError\<close> and \<^verbatim>\<open>TypeError\<close>
  of the conversion; any other exception, such as the \<^verbatim>\<open>OverflowError\<close> of an infinite
  float, leaves the method.
\<close>

definition validate_age ::
  "nat \<Rightarrow> pyval \<Rightarrow> registration_form \<Rightarrow> (pyerror + bool) \<times> registration_form" where
  "validate_age lim age self =
     (if age = PyNone then (Inr True, self)
      else case py_int lim age of
             Inl e \<Rightarrow>
               if e = ValueError \<or> e = TypeError
               then (Inr False, append_error ''Age must be a valid number'' self)
               else (Inl e, self)
           | Inr age_int \<Rightarrow>
               if age_int < MIN_AGE
               then (Inr False,
                     append_error ''You must be at least 13 years old to register'' self)
               else if 150 < age_int
               then (Inr False, append_error ''Please enter a valid age'' self)
               else (Inr True, self))"

definition validate_phone ::
  "pyval \<Rightarrow> registration_form \<Rightarrow> (pyerror + bool) \<times> registration_form" where
  "validate_phone phone self =
     (if \<not> truthy phone then (Inr True, self)
      else case re_match PHONE_PATTERN phone of
             Inl e \<Rightarrow> (Inl e, self)
           | Inr False \<Rightarrow> (Inr False, append_error ''Invalid phone number format'' self)
           | Inr True \<Rightarrow> (Inr True, self))"

text \<open>
  \<^verbatim>\<open>validate\<close> resets \<^verbatim>\<open>self.errors\<close>, stores the dictionary, runs the six checks in
  order and returns \<^verbatim>\<open>all\<close> of their results. \<^verbatim>\<open>form_data.get('age')\<close> and
  \<^verbatim>\<open>form_data.get('phone')\<close> have the default \<^verbatim>\<open>None\<close>.
\<close>

definition form_validate ::
  "nat \<Rightarrow> (string \<rightharpoonup> pyval) \<Rightarrow> registration_form \<Rightarrow> (pyerror + bool) \<times> registration_form" where
  "form_validate lim data self =
     (let self0 = self\<lparr>form_errors := [], form_data := data\<rparr>
      in case validate_username (dict_get data ''username'' (PyStr [])) self0 of
           (Inl e, self1) \<Rightarrow> (Inl e, self1)
         | (Inr username_valid, self1) \<Rightarrow>
      (case form_validate_email (dict_get data ''email'' (PyStr [])) self1 of
           (Inl e, self2) \<Rightarrow> (Inl e, self2)
         | (Inr email_valid, self2) \<Rightarrow>
      (case form_validate_password (dict_get data ''password'' (PyStr [])) self2 of
           (Inl e, self3) \<Rightarrow> (Inl e, self3)
         | (Inr password_valid, self3) \<Rightarrow>
      (case validate_password_confirmation (dict_get data ''password'' (PyStr []))
              (dict_get data ''confirm_password'' (PyStr [])) self3 of
           (Inl e, self4) \<Rightarrow> (Inl e, self4)
         | (Inr confirm_valid, self4) \<Rightarrow>
      (case validate_age lim (dict_get data ''age'' PyNone) self4 of
           (Inl e, self5) \<Rightarrow> (Inl e, self5)
         | (Inr age_valid, self5) \<Rightarrow>
      (case validate_phone (dict_get data ''phone'' PyNone) self5 of
           (Inl e, self6) \<Rightarrow> (Inl e, self6)
         | (Inr phone_valid, self6) \<Rightarrow>
             (Inr (list_all (\<lambda>b. b) [username_valid, email_valid, password_valid,
                                      confirm_valid, age_valid, phone_valid]), self6)))))))"

definition get_errors :: "registration_form \<Rightarrow> string list" where
  "get_errors self = form_errors self"

section \<open>Notions of the specification\<close>

text \<open>The code point of a character, Python's \<^verbatim>\<open>ord\<close>.\<close>

definition py_ord :: "char \<Rightarrow> nat" where
  "py_ord c = of_char c"

text \<open>
  An email of the shape \<^verbatim>\<open>local@domain.tld\<close>: the three parts are not empty and hold
  neither whitespace nor another \<^verbatim>\<open>@\<close>, so the text after the \<^verbatim>\<open>@\<close> has a dot.
\<close>

definition email_shape :: "string \<Rightarrow> string \<Rightarrow> string \<Rightarrow> string \<Rightarrow> bool" where
  "email_shape s local domain tld \<longleftrightarrow>
     s = local @ ''@'' @ domain @ ''.'' @ tld \<and> local \<noteq> [] \<and> domain \<noteq> [] \<and> tld \<noteq> [] \<and>
     list_all (\<lambda>c. \<not> is_space c \<and> c \<noteq> CHR ''@'') (local @ domain @ tld)"

text \<open>
  The password rules of the first/last-name variant, read off the documentation of
  \<^verbatim>\<open>validate_password\<close>: only letters, digits and the special characters
  \<^verbatim>\<open>@$!%*?&#\<close>, and at least one character of each of the four kinds. \<open>chomp\<close> drops one
  final newline.
\<close>

definition is_password_special :: "char \<Rightarrow> bool" where
  "is_password_special c \<longleftrightarrow> c \<in> set ''@$!%*?&#''"

definition password_char :: "char \<Rightarrow> bool" where
  "password_char c \<longleftrightarrow> is_upper c \<or> is_lower c \<or> is_digit c \<or> is_password_special c"

definition chomp :: "string \<Rightarrow> string" where
  "chomp s = (if s \<noteq> [] \<and> last s = CHR 0x0A then butlast s else s)"

definition password_policy :: "string \<Rightarrow> bool" where
  "password_policy q \<longleftrightarrow>
     8 \<le> length q \<and> list_all password_char q \<and> list_ex is_lower q \<and> list_ex is_upper q \<and>
     list_ex is_digit q \<and> list_ex is_password_special q"

text \<open>
  The special characters of the username variant; \<open>CHR 0x22\<close> is the double quote.
\<close>

definition is_form_special :: "char \<Rightarrow> bool" where
  "is_form_special c \<longleftrightarrow> c \<in> set (''!@#$%^&*(),.?'' @ [CHR 0x22] @ '':{}|<>'')"

text \<open>
  The message of the first password rule that fails, in the order of the checks, or
  \<open>None\<close> when every rule holds: for the username variant and for the first/last-name
  variant.
\<close>

definition form_password_failure :: "string \<Rightarrow> string option" where
  "form_password_failure p =
     (if p = [] then Some ''Password is required''
      else if length p < 8 then Some ''Password must be at least 8 characters long''
      else if \<not> list_ex is_upper p
      then Some ''Password must contain at least one uppercase letter''
      else if \<not> list_ex is_lower p
      then Some ''Password must contain at least one lowercase letter''
      else if \<not> list_ex is_digit p then Some ''Password must contain at least one number''
      else if \<not> list_ex is_form_special p
      then Some ''Password must contain at least one special character''
      else None)"

definition server_password_failure :: "string \<Rightarrow> string option" where
  "server_password_failure p =
     (if str_strip p = [] then Some ''Password is required''
      else if length p < 8 then Some ''Password must be at least 8 characters long''
      else if 128 < length p then Some ''Password is too long (max 128 characters)''
      else if \<not> password_policy (chomp p) then Some password_policy_message
      else None)"

text \<open>
  The sanitizer in the words of the specification: control characters (code points
  below 0x20, and 0x7F) are stripped, every run of whitespace is collapsed to a single
  space, and the whitespace at both ends is trimmed. \<open>collapse_from in_run s\<close> scans \<open>s\<close>,
  where \<open>in_run\<close> tells whether the character before was whitespace.
\<close>

definition is_control :: "char \<Rightarrow> bool" where
  "is_control c \<longleftrightarrow> py_ord c < 0x20 \<or> py_ord c = 0x7F"

definition strip_control :: "string \<Rightarrow> string" where
  "strip_control s = filter (\<lambda>c. \<not> is_control c) s"

fun collapse_from :: "bool \<Rightarrow> string \<Rightarrow> string" where
  "collapse_from in_run [] = []"
| "collapse_from in_run (c # cs) =
     (if is_space c then (if in_run then collapse_from True cs else CHR '' '' # collapse_from True cs)
      else c # collapse_from False cs)"

definition collapse_whitespace :: "string \<Rightarrow> string" where
  "collapse_whitespace s = collapse_from False s"

definition lstrip :: "string \<Rightarrow> string" where
  "lstrip s = dropWhile is_space s"

definition rstrip :: "string \<Rightarrow> string" where
  "rstrip s = rev (dropWhile is_space (rev s))"

definition trim :: "string \<Rightarrow> string" where
  "trim s = lstrip (rstrip s)"

text \<open>
  The fields that the validators treat as text, and the test whether the input map
  holds a number other than zero, an integer or a float, under a key.
\<close>

definition server_text_fields :: "string list" where
  "server_text_fields = [''first_name'', ''last_name'', ''email'', ''password'', ''confirm_password'']"

definition form_text_fields :: "string list" where
  "form_text_fields = [''username'', ''email'', ''password'', ''phone'']"

fun nonzero_number :: "pyval \<Rightarrow> bool" where
  "nonzero_number (PyInt n) = (n \<noteq> 0)"
| "nonzero_number (PyFloat f) = (\<not> float_is_zero f)"
| "nonzero_number v = False"

text \<open>An infinite float, and the test whether the input map holds one under a key.\<close>

fun infinite_float :: "pyval \<Rightarrow> bool" where
  "infinite_float (PyFloat PosInf) = True"
| "infinite_float (PyFloat NegInf) = True"
| "infinite_float v = False"

definition infinite_at :: "(string \<rightharpoonup> pyval) \<Rightarrow> string \<Rightarrow> bool" where
  "infinite_at data k = (case data k of None \<Rightarrow> False | Some v \<Rightarrow> infinite_float v)"

definition number_at :: "(string \<rightharpoonup> pyval) \<Rightarrow> string \<Rightarrow> bool" where
  "number_at data k = (case data k of None \<Rightarrow> False | Some v \<Rightarrow> nonzero_number v)"

section \<open>The checks and the error collection\<close>

text \<open>
  Every check that returns leaves the errors untouched when it returns \<open>True\<close> and adds
  an entry when it returns \<open>False\<close>.
\<close>

lemma update_not_Nil: "AList.update k v xs \<noteq> []"
  by (cases xs) auto

lemma errors_set_error: "errors (set_error k m self) \<noteq> []"
  by (simp add: set_error_def update_not_Nil)

lemma validate_required_errors:
  "validate_required f v self = (Inr b, self') \<Longrightarrow> (errors self' = []) = (errors self = [] \<and> b)"
  by (auto simp: validate_required_def errors_set_error split: if_splits sum.splits)

lemma validate_name_errors:
  "validate_name f v self = (Inr b, self') \<Longrightarrow> (errors self' = []) = (errors self = [] \<and> b)"
  unfolding validate_name_def
  by (auto simp: errors_set_error dest!: validate_required_errors split: if_splits sum.splits prod.splits bool.splits)

lemma validate_email_errors:
  "validate_email v self = (Inr b, self') \<Longrightarrow> (errors self' = []) = (errors self = [] \<and> b)"
  unfolding validate_email_def
  by (auto simp: errors_set_error dest!: validate_required_errors split: if_splits sum.splits prod.splits bool.splits)

lemma validate_password_errors:
  "validate_password v self = (Inr b, self') \<Longrightarrow> (errors self' = []) = (errors self = [] \<and> b)"
  unfolding validate_password_def
  by (auto simp: errors_set_error dest!: validate_required_errors split: if_splits sum.splits prod.splits bool.splits)

lemma validate_password_match_errors:
  "validate_password_match p v self = (Inr b, self') \<Longrightarrow> (errors self' = []) = (errors self = [] \<and> b)"
  unfolding validate_password_match_def
  by (auto simp: errors_set_error dest!: validate_required_errors split: if_splits sum.splits prod.splits bool.splits)

lemma validate_registration_flag:
  assumes "validate_registration data self = (Inr (valid, errs), self')"
  shows "valid = (errs = [])"
  using assms unfolding validate_registration_def Let_def
  by (auto split: prod.splits sum.splits dest!: validate_name_errors validate_email_errors validate_password_errors validate_password_match_errors)


lemma form_errors_append_error: "form_errors (append_error m self) \<noteq> []"
  by (simp add: append_error_def)

lemma validate_username_errors:
  "validate_username v self = (Inr b, self') \<Longrightarrow>
     (form_errors self' = []) = (form_errors self = [] \<and> b)"
  unfolding validate_username_def
  by (auto simp: form_errors_append_error split: if_splits sum.splits bool.splits)

lemma form_validate_email_errors:
  "form_validate_email v self = (Inr b, self') \<Longrightarrow>
     (form_errors self' = []) = (form_errors self = [] \<and> b)"
  unfolding form_validate_email_def
  by (auto simp: form_errors_append_error split: if_splits sum.splits bool.splits)

lemma form_validate_password_errors:
  "form_validate_password v self = (Inr b, self') \<Longrightarrow>
     (form_errors self' = []) = (form_errors self = [] \<and> b)"
  unfolding form_validate_password_def
  by (auto simp: form_errors_append_error split: if_splits sum.splits bool.splits)

lemma validate_password_confirmation_errors:
  "validate_password_confirmation p v self = (Inr b, self') \<Longrightarrow>
     (form_errors self' = []) = (form_errors self = [] \<and> b)"
  unfolding validate_password_confirmation_def
  by (auto simp: form_errors_append_error split: if_splits)

lemma validate_age_errors:
  "validate_age lim v self = (Inr b, self') \<Longrightarrow>
     (form_errors self' = []) = (form_errors self = [] \<and> b)"
  unfolding validate_age_def
  by (auto simp: form_errors_append_error split: if_splits sum.splits)

lemma validate_phone_errors:
  "validate_phone v self = (Inr b, self') \<Longrightarrow>
     (form_errors self' = []) = (form_errors self = [] \<and> b)"
  unfolding validate_phone_def
  by (auto simp: form_errors_append_error split: if_splits sum.splits bool.splits)

lemma form_validate_flag:
  assumes "form_validate lim data self = (Inr ok, self')"
  shows "ok = (get_errors self' = [])"
  using assms unfolding form_validate_def Let_def get_errors_def
  by (auto split: prod.splits sum.splits
      dest!: validate_username_errors form_validate_email_errors form_validate_password_errors
        validate_password_confirmation_errors validate_age_errors validate_phone_errors)

text \<open>An error that a check records can be read back from the collection.\<close>

lemma lookup_set_error: "map_of (errors (set_error k m self)) k = Some m"
  by (simp add: set_error_def update_conv')

lemma get_errors_append_error: "get_errors (append_error m self) = get_errors self @ [m]"
  by (simp add: get_errors_def append_error_def)

section \<open>Repeated validation\<close>

lemma validator_reset: "(self :: validator)\<lparr>errors := []\<rparr> = \<lparr>errors = []\<rparr>"
  by (cases self) simp

lemma form_reset:
  "(self :: registration_form)\<lparr>form_errors := [], form_data := d\<rparr> =
   \<lparr>form_errors = [], form_data = d\<rparr>"
  by (cases self) simp

lemma validate_registration_any_instance:
  "validate_registration data self = validate_registration data self'"
  unfolding validate_registration_def by (simp only: validator_reset)

lemma form_validate_any_instance:
  "form_validate lim data self = form_validate lim data self'"
  unfolding form_validate_def by (simp only: form_reset)

text \<open>
  Claim C7. Validation is deterministic and idempotent: a full validation call gives the
  same outcome on any two instances, on the instance a previous call of it has left, and
  through \<^verbatim>\<open>validate_registration_data\<close> on a new instance, because the call resets
  the accumulator first.
\<close>

theorem validation_repeatable:
  "validate_registration data self = validate_registration data self' \<and>
   validate_registration data (snd (validate_registration data self)) =
     validate_registration data self \<and>
   fst (validate_registration data self) = validate_registration_data data \<and>
   form_validate lim fdata fself = form_validate lim fdata fself' \<and>
   form_validate lim fdata (snd (form_validate lim fdata fself)) =
     form_validate lim fdata fself"
proof -
  have "fst (validate_registration data self) = validate_registration_data data"
    unfolding validate_registration_data_def
    using validate_registration_any_instance [of data self init_validator] by simp
  then show ?thesis
    using validate_registration_any_instance form_validate_any_instance by blast
qed

section \<open>Age\<close>

text \<open>
  What \<^verbatim>\<open>validate_age\<close> does when the conversion returns an integer, or fails with one
  of the two exceptions that the \<^verbatim>\<open>try\<close> block catches.
\<close>

lemma validate_age_outcomes:
  "validate_age lim PyNone self = (Inr True, self)"
  "age \<noteq> PyNone \<Longrightarrow> py_int lim age = Inl e \<Longrightarrow> e = ValueError \<or> e = TypeError \<Longrightarrow>
     fst (validate_age lim age self) = Inr False \<and>
     get_errors (snd (validate_age lim age self)) =
       get_errors self @ [''Age must be a valid number'']"
  "py_int lim age = Inr n \<Longrightarrow> n < 13 \<Longrightarrow>
     fst (validate_age lim age self) = Inr False \<and>
     get_errors (snd (validate_age lim age self)) =
       get_errors self @ [''You must be at least 13 years old to register'']"
  "py_int lim age = Inr n \<Longrightarrow> 150 < n \<Longrightarrow>
     fst (validate_age lim age self) = Inr False \<and>
     get_errors (snd (validate_age lim age self)) =
       get_errors self @ [''Please enter a valid age'']"
  "py_int lim age = Inr n \<Longrightarrow> 13 \<le> n \<Longrightarrow> n \<le> 150 \<Longrightarrow>
     validate_age lim age self = (Inr True, self)"
proof -
  have n: "age \<noteq> PyNone" if "py_int lim age = Inr n"
    using that by (cases age) auto
  show "validate_age lim PyNone self = (Inr True, self)"
    by (simp add: validate_age_def)
  show "age \<noteq> PyNone \<Longrightarrow> py_int lim age = Inl e \<Longrightarrow> e = ValueError \<or> e = TypeError \<Longrightarrow>
     fst (validate_age lim age self) = Inr False \<and>
     get_errors (snd (validate_age lim age self)) =
       get_errors self @ [''Age must be a valid number'']"
    by (auto simp: validate_age_def get_errors_append_error)
  show "py_int lim age = Inr n \<Longrightarrow> n < 13 \<Longrightarrow>
     fst (validate_age lim age self) = Inr False \<and>
     get_errors (snd (validate_age lim age self)) =
       get_errors self @ [''You must be at least 13 years old to register'']"
    using n by (auto simp: validate_age_def MIN_AGE_def get_errors_append_error)
  show "py_int lim age = Inr n \<Longrightarrow> 150 < n \<Longrightarrow>
     fst (validate_age lim age self) = Inr False \<and>
     get_errors (snd (validate_age lim age self)) =
       get_errors self @ [''Please enter a valid age'']"
    using n by (auto simp: validate_age_def MIN_AGE_def get_errors_append_error)
  show "py_int lim age = Inr n \<Longrightarrow> 13 \<le> n \<Longrightarrow> n \<le> 150 \<Longrightarrow>
     validate_age lim age self = (Inr True, self)"
    using n by (auto simp: validate_age_def MIN_AGE_def)
qed

text \<open>
  Claim C6. \<^verbatim>\<open>validate_age\<close> should pass \<^verbatim>\<open>None\<close>, report an invalid format when the
  conversion of the age to an integer fails, report an age out of range below 13 and above
  150, and pass every integer from 13 to 150. The code does so by \<open>validate_age_outcomes\<close>,
  except for an infinite float: its conversion fails with \<^verbatim>\<open>OverflowError\<close>, which the
  \<^verbatim>\<open>try\<close> block does not catch, so \<^verbatim>\<open>validate_age\<close> and \<^verbatim>\<open>validate\<close> raise instead of
  reporting an error.
\<close>

theorem infinite_age_raises:
  "py_int 4300 (PyFloat PosInf) = Inl OverflowError \<and>
   validate_age 4300 (PyFloat PosInf) init_form = (Inl OverflowError, init_form) \<and>
   fst (form_validate 4300
          [''username'' \<mapsto> PyStr ''john_doe'', ''email'' \<mapsto> PyStr ''john@example.com'',
           ''password'' \<mapsto> PyStr ''SecurePass123!'',
           ''confirm_password'' \<mapsto> PyStr ''SecurePass123!'', ''age'' \<mapsto> PyFloat PosInf]
          init_form) = Inl OverflowError"
proof (intro conjI)
  show "py_int 4300 (PyFloat PosInf) = Inl OverflowError"
    by simp
  show "validate_age 4300 (PyFloat PosInf) init_form = (Inl OverflowError, init_form)"
    by (simp add: validate_age_def)
  show "fst (form_validate 4300
          [''username'' \<mapsto> PyStr ''john_doe'', ''email'' \<mapsto> PyStr ''john@example.com'',
           ''password'' \<mapsto> PyStr ''SecurePass123!'',
           ''confirm_password'' \<mapsto> PyStr ''SecurePass123!'', ''age'' \<mapsto> PyFloat PosInf]
          init_form) = Inl OverflowError"
    by code_simp
qed

section \<open>Facts about the library functions\<close>

text \<open>A repetition matches when the subject splits into the repeated part and a rest.\<close>

lemma le_length_takeWhile:
  "k \<le> length (takeWhile P s) \<longleftrightarrow> k \<le> length s \<and> (\<forall>c\<in>set (take k s). P c)"
proof (induction s arbitrary: k)
  case Nil
  then show ?case by simp
next
  case (Cons a s)
  then show ?case by (cases k) auto
qed

lemma rmatch_Rep_take:
  "rmatch (Rep cs lo hi # ps) at_start s \<longleftrightarrow>
     (\<exists>k. lo \<le> k \<and> k \<le> length s \<and> (\<forall>h. hi = Some h \<longrightarrow> k \<le> h) \<and>
          (\<forall>c\<in>set (take k s). in_cset cs c) \<and> rmatch ps (at_start \<and> k = 0) (drop k s))"
proof -
  let ?n = "length (takeWhile (in_cset cs) s)"
  let ?m = "case hi of None \<Rightarrow> ?n | Some h \<Rightarrow> min ?n h"
  have m: "k \<le> ?m \<longleftrightarrow>
      k \<le> length s \<and> (\<forall>c\<in>set (take k s). in_cset cs c) \<and> (\<forall>h. hi = Some h \<longrightarrow> k \<le> h)" for k
    by (cases hi) (auto simp: le_length_takeWhile)
  have "rmatch (Rep cs lo hi # ps) at_start s \<longleftrightarrow>
      (\<exists>k\<in>set [lo..<Suc ?m]. rmatch ps (at_start \<and> k = 0) (drop k s))"
    by (simp only: rmatch.simps Let_def list_ex_iff)
  also have "\<dots> \<longleftrightarrow> (\<exists>k. lo \<le> k \<and> k \<le> ?m \<and> rmatch ps (at_start \<and> k = 0) (drop k s))"
    by (simp only: set_upt atLeastLessThan_iff less_Suc_eq_le Bex_def conj_assoc)
  finally show ?thesis
    unfolding m by blast
qed

lemma rmatch_Rep:
  "rmatch (Rep cs lo hi # ps) at_start s \<longleftrightarrow>
     (\<exists>u v. s = u @ v \<and> lo \<le> length u \<and> (\<forall>h. hi = Some h \<longrightarrow> length u \<le> h) \<and>
          (\<forall>c\<in>set u. in_cset cs c) \<and> rmatch ps (at_start \<and> u = []) v)"
  (is "?l \<longleftrightarrow> ?r")
proof
  assume ?l
  then obtain k where k: "lo \<le> k" "k \<le> length s" "\<forall>h. hi = Some h \<longrightarrow> k \<le> h"
      "\<forall>c\<in>set (take k s). in_cset cs c" "rmatch ps (at_start \<and> k = 0) (drop k s)"
    unfolding rmatch_Rep_take by blast
  have "s = take k s @ drop k s" by simp
  moreover have "length (take k s) = k" using k(2) by simp
  moreover have "(take k s = []) = (k = 0)" using k(2) by auto
  ultimately show ?r
    using k by (intro exI [of _ "take k s"] exI [of _ "drop k s"]) simp
next
  assume ?r
  then obtain u v where uv: "s = u @ v" "lo \<le> length u" "\<forall>h. hi = Some h \<longrightarrow> length u \<le> h"
      "\<forall>c\<in>set u. in_cset cs c" "rmatch ps (at_start \<and> u = []) v"
    by blast
  then show ?l
    unfolding rmatch_Rep_take by (intro exI [of _ "length u"]) auto
qed

lemma rmatch_One:
  "rmatch (One cs # ps) at_start s \<longleftrightarrow>
     (\<exists>c v. s = c # v \<and> in_cset cs c \<and> rmatch ps False v)"
  (is "?l \<longleftrightarrow> ?r")
proof
  assume ?l
  then obtain u v where uv: "s = u @ v" "1 \<le> length u" "length u \<le> 1"
      "\<forall>c\<in>set u. in_cset cs c" "rmatch ps (at_start \<and> u = []) v"
    unfolding rmatch_Rep by auto
  then obtain c where "u = [c]" by (cases u) auto
  with uv show ?r by auto
next
  assume ?r
  then obtain c v where "s = [c] @ v" "in_cset cs c" "rmatch ps False v" by auto
  then show ?l unfolding rmatch_Rep by (intro exI [of _ "[c]"] exI [of _ v]) auto
qed

lemma rmatch_Eol: "rmatch [Eol] at_start s \<longleftrightarrow> s = [] \<or> s = [CHR 0x0A]"
  by simp

lemma re_search_One:
  "re_search [One cs] (PyStr s) = Inr (list_ex (in_cset cs) s)"
proof -
  have "(\<exists>k\<le>length s. \<exists>c v. drop k s = c # v \<and> in_cset cs c) \<longleftrightarrow> (\<exists>c\<in>set s. in_cset cs c)"
    (is "?l \<longleftrightarrow> ?r")
  proof
    assume ?l
    then obtain k c v where "drop k s = c # v" "in_cset cs c" by blast
    then show ?r by (metis in_set_dropD list.set_intros(1))
  next
    assume ?r
    then obtain c where c: "c \<in> set s" "in_cset cs c" by blast
    then obtain i where i: "i < length s" "s ! i = c" by (auto simp: in_set_conv_nth)
    then have "drop i s = c # drop (Suc i) s" using Cons_nth_drop_Suc [of i s] by simp
    with i c show ?l by (intro exI [of _ i]) auto
  qed
  then show ?thesis
    by (simp only: re_search.simps rmatch_One rmatch.simps(1) list_ex_iff set_upt
        atLeastLessThan_iff less_Suc_eq_le Bex_def simp_thms) simp
qed


lemma rmatch_Plus:
  "rmatch (Plus cs # ps) at_start s \<longleftrightarrow>
     (\<exists>u v. s = u @ v \<and> u \<noteq> [] \<and> (\<forall>c\<in>set u. in_cset cs c) \<and> rmatch ps False v)"
  (is "?l \<longleftrightarrow> ?r")
proof
  assume ?l
  then obtain u v where uv: "s = u @ v" "1 \<le> length u" "\<forall>c\<in>set u. in_cset cs c"
      "rmatch ps (at_start \<and> u = []) v"
    unfolding rmatch_Rep by auto
  then have "u \<noteq> []" by auto
  with uv show ?r by auto
next
  assume ?r
  then obtain u v where uv: "s = u @ v" "u \<noteq> []" "\<forall>c\<in>set u. in_cset cs c" "rmatch ps False v"
    by auto
  then have "1 \<le> length u" by (cases u) auto
  with uv show ?l
    unfolding rmatch_Rep by (intro exI [of _ u] exI [of _ v]) simp
qed

lemma rmatch_Rep_Eol:
  "rmatch [Rep cs lo None, Eol] at_start s \<longleftrightarrow>
     (\<exists>u r. s = u @ r \<and> lo \<le> length u \<and> (\<forall>c\<in>set u. in_cset cs c) \<and> (r = [] \<or> r = [CHR 0x0A]))"
  unfolding rmatch_Rep by simp


lemma in_Ch: "in_cset (In [Ch a]) c = (c = a)"
  by simp

lemma rmatch_local_at_domain:
  "rmatch [Bol, Plus A, One (In [Ch x]), Plus B, One (In [Ch y]), Rep C lo None, Eol] True s \<longleftrightarrow>
     (\<exists>a b c r. s = a @ [x] @ b @ [y] @ c @ r \<and> a \<noteq> [] \<and> b \<noteq> [] \<and> lo \<le> length c \<and>
        (\<forall>z\<in>set a. in_cset A z) \<and> (\<forall>z\<in>set b. in_cset B z) \<and> (\<forall>z\<in>set c. in_cset C z) \<and>
        (r = [] \<or> r = [CHR 0x0A]))"
  (is "?l \<longleftrightarrow> ?r")
proof -
  have l: "?l \<longleftrightarrow> (\<exists>a v. s = a @ v \<and> a \<noteq> [] \<and> (\<forall>z\<in>set a. in_cset A z) \<and>
      (\<exists>x' v1. v = x' # v1 \<and> x' = x \<and>
      (\<exists>b v2. v1 = b @ v2 \<and> b \<noteq> [] \<and> (\<forall>z\<in>set b. in_cset B z) \<and>
      (\<exists>y' v3. v2 = y' # v3 \<and> y' = y \<and>
      (\<exists>c r. v3 = c @ r \<and> lo \<le> length c \<and> (\<forall>z\<in>set c. in_cset C z) \<and>
         (r = [] \<or> r = [CHR 0x0A]))))))"
    by (simp only: rmatch.simps(2) rmatch_Plus rmatch_One rmatch_Rep_Eol in_Ch simp_thms)
  show ?thesis
    unfolding l
  proof
    assume ?r
    then obtain a b c r where h: "s = a @ [x] @ b @ [y] @ c @ r" "a \<noteq> []" "b \<noteq> []"
        "lo \<le> length c" "\<forall>z\<in>set a. in_cset A z" "\<forall>z\<in>set b. in_cset B z"
        "\<forall>z\<in>set c. in_cset C z" "r = [] \<or> r = [CHR 0x0A]"
      by (elim exE conjE)
    have 3: "\<exists>c' r'. c @ r = c' @ r' \<and> lo \<le> length c' \<and> (\<forall>z\<in>set c'. in_cset C z) \<and>
        (r' = [] \<or> r' = [CHR 0x0A])"
      using h by (intro exI [of _ c] exI [of _ r]) simp
    have 2: "\<exists>b' v2. b @ y # c @ r = b' @ v2 \<and> b' \<noteq> [] \<and> (\<forall>z\<in>set b'. in_cset B z) \<and>
      (\<exists>y' v3. v2 = y' # v3 \<and> y' = y \<and>
      (\<exists>c r. v3 = c @ r \<and> lo \<le> length c \<and> (\<forall>z\<in>set c. in_cset C z) \<and>
         (r = [] \<or> r = [CHR 0x0A])))"
      using h 3 by (intro exI [of _ b] exI [of _ "y # c @ r"]) simp
    show "\<exists>a v. s = a @ v \<and> a \<noteq> [] \<and> (\<forall>z\<in>set a. in_cset A z) \<and>
      (\<exists>x' v1. v = x' # v1 \<and> x' = x \<and>
      (\<exists>b v2. v1 = b @ v2 \<and> b \<noteq> [] \<and> (\<forall>z\<in>set b. in_cset B z) \<and>
      (\<exists>y' v3. v2 = y' # v3 \<and> y' = y \<and>
      (\<exists>c r. v3 = c @ r \<and> lo \<le> length c \<and> (\<forall>z\<in>set c. in_cset C z) \<and>
         (r = [] \<or> r = [CHR 0x0A])))))"
      using h 2 by (intro exI [of _ a] exI [of _ "x # b @ y # c @ r"]) simp
  next
    assume "\<exists>a v. s = a @ v \<and> a \<noteq> [] \<and> (\<forall>z\<in>set a. in_cset A z) \<and>
      (\<exists>x' v1. v = x' # v1 \<and> x' = x \<and>
      (\<exists>b v2. v1 = b @ v2 \<and> b \<noteq> [] \<and> (\<forall>z\<in>set b. in_cset B z) \<and>
      (\<exists>y' v3. v2 = y' # v3 \<and> y' = y \<and>
      (\<exists>c r. v3 = c @ r \<and> lo \<le> length c \<and> (\<forall>z\<in>set c. in_cset C z) \<and>
         (r = [] \<or> r = [CHR 0x0A])))))"
    then obtain a v v1 b v2 v3 c r where h: "s = a @ v" "a \<noteq> []" "\<forall>z\<in>set a. in_cset A z"
        "v = x # v1" "v1 = b @ v2" "b \<noteq> []" "\<forall>z\<in>set b. in_cset B z" "v2 = y # v3"
        "v3 = c @ r" "lo \<le> length c" "\<forall>z\<in>set c. in_cset C z" "r = [] \<or> r = [CHR 0x0A]"
      by (elim exE conjE) simp
    show ?r
      using h by (intro exI [of _ a] exI [of _ b] exI [of _ c] exI [of _ r]) simp
  qed
qed

text \<open>The checks on a string argument, with the pattern matching left as \<open>rmatch\<close>.\<close>

lemma str_strip_Nil: "str_strip [] = []"
  by (simp add: str_strip_def)

lemma validate_required_str:
  "validate_required f (PyStr s) self =
     (if str_strip s = []
      then (Inr False, set_error f (field_label f @ '' is required'') self)
      else (Inr True, self))"
  by (auto simp: validate_required_def str_strip_Nil)

lemma label_email: "field_label ''email'' = ''Email''"
  by code_simp

lemma label_password: "field_label ''password'' = ''Password''"
  by code_simp

lemma validate_email_str:
  "validate_email (PyStr s) self =
     (if str_strip s = [] then (Inr False, set_error ''email'' ''Email is required'' self)
      else if \<not> rmatch EMAIL_REGEX True s
      then (Inr False, set_error ''email'' ''Please enter a valid email address'' self)
      else if 254 < length s
      then (Inr False, set_error ''email'' ''Email address is too long'' self)
      else (Inr True, self))"
  unfolding validate_email_def validate_required_str label_email
  by (simp del: rmatch.simps)

lemma validate_password_str:
  "validate_password (PyStr s) self =
     (if str_strip s = [] then (Inr False, set_error ''password'' ''Password is required'' self)
      else if length s < 8
      then (Inr False, set_error ''password'' ''Password must be at least 8 characters long'' self)
      else if 128 < length s
      then (Inr False, set_error ''password'' ''Password is too long (max 128 characters)'' self)
      else if \<not> rmatch PASSWORD_REGEX True s
      then (Inr False, set_error ''password'' password_policy_message self)
      else (Inr True, self))"
  unfolding validate_password_def validate_required_str label_password
  by (simp del: rmatch.simps)

lemma form_validate_email_str:
  "form_validate_email (PyStr s) self =
     (if s = [] then (Inr False, append_error ''Email is required'' self)
      else if \<not> rmatch EMAIL_PATTERN True s
      then (Inr False, append_error ''Invalid email format'' self)
      else (Inr True, self))"
  unfolding form_validate_email_def
  by (simp del: rmatch.simps)

lemma form_validate_password_str:
  "form_validate_password (PyStr s) self =
     (if s = [] then (Inr False, append_error ''Password is required'' self)
      else if length s < 8
      then (Inr False, append_error ''Password must be at least 8 characters long'' self)
      else if \<not> list_ex is_upper s
      then (Inr False, append_error ''Password must contain at least one uppercase letter'' self)
      else if \<not> list_ex is_lower s
      then (Inr False, append_error ''Password must contain at least one lowercase letter'' self)
      else if \<not> list_ex is_digit s
      then (Inr False, append_error ''Password must contain at least one number'' self)
      else if \<not> list_ex (in_cset (In form_specials)) s
      then (Inr False, append_error ''Password must contain at least one special character'' self)
      else (Inr True, self))"
proof -
  have u: "in_cset (In [Rng CHR ''A'' CHR ''Z'']) = is_upper"
    by (auto simp: is_upper_def)
  have l: "in_cset (In [Rng CHR ''a'' CHR ''z'']) = is_lower"
    by (auto simp: is_lower_def)
  have d: "in_cset (In [Digit]) = is_digit"
    by auto
  show ?thesis
    unfolding form_validate_password_def re_search_One u l d PASSWORD_MIN_LENGTH_def
    by simp
qed

text \<open>Character classes in terms of code points.\<close>

lemma char_le_iff: "(a \<le> b) = (py_ord a \<le> py_ord b)"
  by (simp add: less_eq_char_def py_ord_def)

lemma char_eq_iff: "(a = b) = (py_ord a = py_ord b)"
  by (simp add: py_ord_def)

lemma is_space_code:
  "is_space c \<longleftrightarrow> (9 \<le> py_ord c \<and> py_ord c \<le> 13) \<or>
     (28 \<le> py_ord c \<and> py_ord c \<le> 32) \<or> py_ord c = 133 \<or> py_ord c = 160"
  unfolding is_space_def char_le_iff char_eq_iff [of c] by (simp add: py_ord_def)

lemma in_citem_code:
  "in_citem (Ch a) c = (py_ord c = py_ord a)"
  "in_citem (Rng a b) c = (py_ord a \<le> py_ord c \<and> py_ord c \<le> py_ord b)"
  "in_citem Digit c = (48 \<le> py_ord c \<and> py_ord c \<le> 57)"
  "in_citem Space c = ((9 \<le> py_ord c \<and> py_ord c \<le> 13) \<or>
     (28 \<le> py_ord c \<and> py_ord c \<le> 32) \<or> py_ord c = 133 \<or> py_ord c = 160)"
  unfolding in_citem.simps is_space_code is_digit_def char_le_iff char_eq_iff [of c]
  by (simp_all add: py_ord_def)

lemma py_ord_literal:
  "py_ord (Char b0 b1 b2 b3 b4 b5 b6 b7) = of_char (Char b0 b1 b2 b3 b4 b5 b6 b7)"
  by (simp add: py_ord_def)

lemmas in_cset_code =
  in_cset.simps append.simps list_ex_Nil_iff list_ex_Cons_iff in_citem_code

section \<open>Email\<close>

lemma str_strip_no_space:
  assumes "\<forall>c\<in>set s. \<not> is_space c"
  shows "str_strip s = s"
proof -
  have d: "dropWhile is_space t = t" if "\<forall>c\<in>set t. \<not> is_space c" for t
    using that by (cases t) auto
  have "dropWhile is_space (rev s) = rev s"
    using assms by (intro d) simp
  then show ?thesis
    unfolding str_strip_def using d [OF assms] by simp
qed

lemma not_space_at_dot: "\<not> is_space CHR ''@''" "\<not> is_space CHR ''.''"
  unfolding is_space_code by (simp_all add: py_ord_def)

lemma email_shape_no_space:
  assumes "email_shape s l d t"
  shows "\<forall>c\<in>set s. \<not> is_space c"
  using assms not_space_at_dot by (auto simp: email_shape_def list_all_iff)

lemma email_shape_self:
  "email_shape (l @ ''@'' @ d @ ''.'' @ t) l d t \<longleftrightarrow>
     l \<noteq> [] \<and> d \<noteq> [] \<and> t \<noteq> [] \<and>
     (\<forall>z\<in>set l. \<not> is_space z \<and> z \<noteq> CHR ''@'') \<and>
     (\<forall>z\<in>set d. \<not> is_space z \<and> z \<noteq> CHR ''@'') \<and>
     (\<forall>z\<in>set t. \<not> is_space z \<and> z \<noteq> CHR ''@'')"
  unfolding email_shape_def list_all_iff by auto

lemma EMAIL_REGEX_shape:
  "rmatch EMAIL_REGEX True s \<longleftrightarrow>
     (\<exists>l d t r. email_shape (l @ ''@'' @ d @ ''.'' @ t) l d t \<and> s = l @ ''@'' @ d @ ''.'' @ t @ r \<and>
        (r = [] \<or> r = [CHR 0x0A]))"
proof -
  have c: "in_cset (NotIn [Space, Ch CHR ''@'']) = (\<lambda>z. \<not> is_space z \<and> z \<noteq> CHR ''@'')"
    by (rule ext) simp
  have n: "(1 \<le> length t) = (t \<noteq> [])" for t :: string
    by (cases t) auto
  show ?thesis
    unfolding EMAIL_REGEX_def rmatch_local_at_domain c n email_shape_self
    by (intro iff_exI) (simp add: conj_ac)
qed

lemma EMAIL_PATTERN_shape:
  assumes "rmatch EMAIL_PATTERN True s"
  shows "\<exists>l d t r. email_shape (l @ ''@'' @ d @ ''.'' @ t) l d t \<and> s = l @ ''@'' @ d @ ''.'' @ t @ r \<and>
        (r = [] \<or> r = [CHR 0x0A])"
proof -
  have a: "in_cset (In (alnum @ [Ch CHR ''.'', Ch CHR ''_'', Ch CHR ''%'', Ch CHR ''+'', Ch CHR ''-''])) z
      \<Longrightarrow> \<not> is_space z \<and> z \<noteq> CHR ''@''" for z
    unfolding alnum_def in_cset_code is_space_code char_eq_iff [of z]
    by (simp add: py_ord_literal) arith
  have b: "in_cset (In (alnum @ [Ch CHR ''.'', Ch CHR ''-''])) z \<Longrightarrow> \<not> is_space z \<and> z \<noteq> CHR ''@''" for z
    unfolding alnum_def in_cset_code is_space_code char_eq_iff [of z]
    by (simp add: py_ord_literal) arith
  have c: "in_cset (In [Rng CHR ''a'' CHR ''z'', Rng CHR ''A'' CHR ''Z'']) z
      \<Longrightarrow> \<not> is_space z \<and> z \<noteq> CHR ''@''" for z
    unfolding alnum_def in_cset_code is_space_code char_eq_iff [of z]
    by (simp add: py_ord_literal) arith
  from assms obtain l d t r where h: "s = l @ ''@'' @ d @ ''.'' @ t @ r" "l \<noteq> []" "d \<noteq> []"
      "2 \<le> length t"
      "\<forall>z\<in>set l. in_cset (In (alnum @ [Ch CHR ''.'', Ch CHR ''_'', Ch CHR ''%'', Ch CHR ''+'', Ch CHR ''-''])) z"
      "\<forall>z\<in>set d. in_cset (In (alnum @ [Ch CHR ''.'', Ch CHR ''-''])) z"
      "\<forall>z\<in>set t. in_cset (In [Rng CHR ''a'' CHR ''z'', Rng CHR ''A'' CHR ''Z'']) z"
      "r = [] \<or> r = [CHR 0x0A]"
    unfolding EMAIL_PATTERN_def rmatch_local_at_domain by (elim exE conjE)
  have "t \<noteq> []" using h(4) by auto
  then have "email_shape (l @ ''@'' @ d @ ''.'' @ t) l d t"
    using h a b c unfolding email_shape_self by simp
  with h show ?thesis
    by (intro exI [of _ l] exI [of _ d] exI [of _ t] exI [of _ r]) simp
qed

lemma no_final_newline:
  assumes "s = [] \<or> last s \<noteq> CHR 0x0A" "s = m @ r" "r = [] \<or> r = [CHR 0x0A]"
  shows "r = []"
  using assms by auto

lemma user_at_domain_server: "\<not> rmatch EMAIL_REGEX True ''user@domain''"
  by code_simp

lemma user_at_domain_form: "\<not> rmatch EMAIL_PATTERN True ''user@domain''"
  by code_simp

lemma user_at_domain_strip: "str_strip ''user@domain'' \<noteq> []"
  by code_simp

lemma form_email_any_length:
  assumes "1 \<le> n"
  shows "rmatch EMAIL_PATTERN True (replicate n CHR ''a'' @ ''@b.cc'')"
proof -
  have a: "in_cset (In (alnum @ [Ch CHR ''.'', Ch CHR ''_'', Ch CHR ''%'', Ch CHR ''+'', Ch CHR ''-'']))
      CHR ''a''"
    by code_simp
  have b: "in_cset (In (alnum @ [Ch CHR ''.'', Ch CHR ''-''])) CHR ''b''"
    by code_simp
  have c: "in_cset (In [Rng CHR ''a'' CHR ''z'', Rng CHR ''A'' CHR ''Z'']) CHR ''c''"
    by code_simp
  have "replicate n CHR ''a'' \<noteq> []"
    using assms by simp
  then show ?thesis
    unfolding EMAIL_PATTERN_def rmatch_local_at_domain
    using a b c
    by (intro exI [of _ "replicate n CHR ''a''"] exI [of _ "''b''"] exI [of _ "''cc''"]
        exI [of _ "[]"]) simp
qed

text \<open>
  Claim C5, as amended. For every email string that does not end in a newline:
  \<^verbatim>\<open>RegistrationValidator.validate_email\<close> accepts it only if it has the shape
  \<^verbatim>\<open>local@domain.tld\<close>, with a dot in the domain and no whitespace, and at most 254
  characters, and rejects it as too long when it has the shape and more than 254
  characters; \<^verbatim>\<open>RegistrationForm.validate_email\<close> accepts it only if it has the shape.
  \<^verbatim>\<open>RegistrationForm.validate_email\<close> has no bound on the length: for every \<open>n\<close> from 1 on it
  accepts an address of \<open>n + 5\<close> characters. Both reject \<^verbatim>\<open>user@domain\<close> as an invalid
  format.
\<close>

theorem email_rules:
  assumes "s = [] \<or> last s \<noteq> CHR 0x0A"
  shows
    "(validate_email (PyStr s) self = (Inr True, self') \<longrightarrow>
        (\<exists>local domain tld. email_shape s local domain tld) \<and> length s \<le> 254) \<and>
     (email_shape s local domain tld \<and> 254 < length s \<longrightarrow>
        validate_email (PyStr s) self =
          (Inr False, set_error ''email'' ''Email address is too long'' self) \<and>
        map_of (errors (snd (validate_email (PyStr s) self))) ''email'' =
          Some ''Email address is too long'') \<and>
     (form_validate_email (PyStr s) fself = (Inr True, fself') \<longrightarrow>
        (\<exists>local domain tld. email_shape s local domain tld)) \<and>
     validate_email (PyStr ''user@domain'') self =
       (Inr False, set_error ''email'' ''Please enter a valid email address'' self) \<and>
     map_of (errors (snd (validate_email (PyStr ''user@domain'') self))) ''email'' =
       Some ''Please enter a valid email address'' \<and>
     form_validate_email (PyStr ''user@domain'') fself =
       (Inr False, append_error ''Invalid email format'' fself) \<and>
     get_errors (snd (form_validate_email (PyStr ''user@domain'') fself)) =
       get_errors fself @ [''Invalid email format''] \<and>
     (1 \<le> n \<longrightarrow>
        length (replicate n CHR ''a'' @ ''@b.cc'') = n + 5 \<and>
        form_validate_email (PyStr (replicate n CHR ''a'' @ ''@b.cc'')) fself =
          (Inr True, fself))"
proof ((intro conjI; (intro impI)?))
  assume "validate_email (PyStr s) self = (Inr True, self')"
  then have m: "rmatch EMAIL_REGEX True s" and n: "length s \<le> 254"
    unfolding validate_email_str by (simp_all split: if_splits)
  from m obtain l d t r where h: "email_shape (l @ ''@'' @ d @ ''.'' @ t) l d t"
      "s = l @ ''@'' @ d @ ''.'' @ t @ r" "r = [] \<or> r = [CHR 0x0A]"
    unfolding EMAIL_REGEX_shape by (elim exE conjE)
  have "s = (l @ ''@'' @ d @ ''.'' @ t) @ r" using h(2) by simp
  from no_final_newline [OF assms this h(3)] h have "email_shape s l d t" by simp
  then have "\<exists>local domain tld. email_shape s local domain tld" by (intro exI)
  then show "(\<exists>local domain tld. email_shape s local domain tld) \<and> length s \<le> 254"
    using n by (intro conjI)
next
  assume a: "email_shape s local domain tld \<and> 254 < length s"
  then have e: "email_shape (local @ ''@'' @ domain @ ''.'' @ tld) local domain tld"
      and s: "s = local @ ''@'' @ domain @ ''.'' @ tld @ []"
    by (simp_all add: email_shape_def)
  have "rmatch EMAIL_REGEX True s"
    unfolding EMAIL_REGEX_shape
    using e s by (intro exI [of _ "local"] exI [of _ domain] exI [of _ tld] exI [of _ "[]"]) simp
  moreover have "str_strip s = s"
    using a email_shape_no_space [of s "local" domain tld] by (intro str_strip_no_space) simp
  moreover have "s \<noteq> []" using a by auto
  ultimately have "validate_email (PyStr s) self =
      (Inr False, set_error ''email'' ''Email address is too long'' self)"
    unfolding validate_email_str using a by simp
  then show "validate_email (PyStr s) self =
          (Inr False, set_error ''email'' ''Email address is too long'' self) \<and>
        map_of (errors (snd (validate_email (PyStr s) self))) ''email'' =
          Some ''Email address is too long''"
    by (simp only: snd_conv lookup_set_error simp_thms)
next
  assume "form_validate_email (PyStr s) fself = (Inr True, fself')"
  then have m: "rmatch EMAIL_PATTERN True s"
    unfolding form_validate_email_str by (simp split: if_splits)
  from EMAIL_PATTERN_shape [OF m] obtain l d t r where
    h: "email_shape (l @ ''@'' @ d @ ''.'' @ t) l d t"
      "s = l @ ''@'' @ d @ ''.'' @ t @ r" "r = [] \<or> r = [CHR 0x0A]"
    by (elim exE conjE)
  have "s = (l @ ''@'' @ d @ ''.'' @ t) @ r" using h(2) by simp
  from no_final_newline [OF assms this h(3)] h have "email_shape s l d t" by simp
  then show "\<exists>local domain tld. email_shape s local domain tld" by (intro exI)
next
  show v: "validate_email (PyStr ''user@domain'') self =
       (Inr False, set_error ''email'' ''Please enter a valid email address'' self)"
    unfolding validate_email_str using user_at_domain_server user_at_domain_strip
    by (simp only: if_False if_True simp_thms)
  show "map_of (errors (snd (validate_email (PyStr ''user@domain'') self))) ''email'' =
       Some ''Please enter a valid email address''"
    by (simp only: v snd_conv lookup_set_error)
next
  show f: "form_validate_email (PyStr ''user@domain'') fself =
       (Inr False, append_error ''Invalid email format'' fself)"
    unfolding form_validate_email_str using user_at_domain_form
    by (simp del: rmatch.simps)
  show "get_errors (snd (form_validate_email (PyStr ''user@domain'') fself)) =
       get_errors fself @ [''Invalid email format'']"
    by (simp only: f snd_conv get_errors_append_error)
next
  assume "1 \<le> n"
  then show "length (replicate n CHR ''a'' @ ''@b.cc'') = n + 5 \<and>
        form_validate_email (PyStr (replicate n CHR ''a'' @ ''@b.cc'')) fself =
          (Inr True, fself)"
    using form_email_any_length [of n] unfolding form_validate_email_str by simp
qed

theorem email_rules_witness:
  "(\<exists>local domain tld. email_shape ''user@example.com'' local domain tld) \<and>
   length ''user@example.com'' \<le> 254 \<and>
   map_of (errors (snd (validate_email (PyStr (replicate 250 CHR ''a'' @ ''@b.cc''))
     init_validator))) ''email'' = Some ''Email address is too long'' \<and>
   length (replicate 1000 CHR ''a'' @ ''@b.cc'') = 1000 + 5 \<and>
   form_validate_email (PyStr (replicate 1000 CHR ''a'' @ ''@b.cc'')) init_form =
     (Inr True, init_form)"
proof -
  have n: "''user@example.com'' = [] \<or> last ''user@example.com'' \<noteq> CHR 0x0A"
    by simp
  have v: "validate_email (PyStr ''user@example.com'') init_validator = (Inr True, init_validator)"
    by code_simp
  have "rmatch EMAIL_PATTERN True ''user@example.com''"
    by code_simp
  then have f: "form_validate_email (PyStr ''user@example.com'') init_form = (Inr True, init_form)"
    unfolding form_validate_email_str by simp
  have m: "replicate 250 CHR ''a'' @ ''@b.cc'' = [] \<or>
      last (replicate 250 CHR ''a'' @ ''@b.cc'') \<noteq> CHR 0x0A"
    by simp
  have "\<not> is_space CHR ''a''" "\<not> is_space CHR ''b''" "\<not> is_space CHR ''c''"
    by code_simp+
  then have e: "email_shape (replicate 250 CHR ''a'' @ ''@b.cc'') (replicate 250 CHR ''a'') ''b'' ''cc''
      \<and> 254 < length (replicate 250 CHR ''a'' @ ''@b.cc'')"
    unfolding email_shape_def list_all_iff by simp
  have k: "(1::nat) \<le> 1000"
    by simp
  note t = email_rules [OF n, of init_validator init_validator _ _ _ init_form init_form]
  note u = email_rules [OF m, of init_validator _ "replicate 250 CHR ''a''" "''b''" "''cc''"]
  note w = email_rules [OF n, of _ _ _ _ _ init_form _ 1000]
  have 1: "(\<exists>local domain tld. email_shape ''user@example.com'' local domain tld) \<and>
      length ''user@example.com'' \<le> 254"
    by (rule t [THEN conjunct1, rule_format, OF v])
  have 2: "\<exists>local domain tld. email_shape ''user@example.com'' local domain tld"
    by (rule t [THEN conjunct2, THEN conjunct2, THEN conjunct1, rule_format, OF f])
  have 3: "map_of (errors (snd (validate_email (PyStr (replicate 250 CHR ''a'' @ ''@b.cc''))
      init_validator))) ''email'' = Some ''Email address is too long''"
    by (rule u [THEN conjunct2, THEN conjunct1, rule_format, OF e, THEN conjunct2])
  have 4: "length (replicate 1000 CHR ''a'' @ ''@b.cc'') = 1000 + 5 \<and>
      form_validate_email (PyStr (replicate 1000 CHR ''a'' @ ''@b.cc'')) init_form =
        (Inr True, init_form)"
    by (rule w [THEN conjunct2, THEN conjunct2, THEN conjunct2, THEN conjunct2, THEN conjunct2,
          THEN conjunct2, THEN conjunct2, rule_format, OF k])
  show ?thesis
    by (intro conjI 2 1 [THEN conjunct2] 3 4 [THEN conjunct1] 4 [THEN conjunct2])
qed

text \<open>
  The claim as stated fails on \<^verbatim>\<open>RegistrationForm.validate_email\<close>, which has no length
  check: it accepts an address of 255 characters.
\<close>

theorem form_accepts_long_email:
  "length (replicate 250 CHR ''a'' @ ''@b.cc'') = 255 \<and>
   form_validate_email (PyStr (replicate 250 CHR ''a'' @ ''@b.cc'')) init_form =
     (Inr True, init_form)"
proof -
  have a: "in_cset (In (alnum @ [Ch CHR ''.'', Ch CHR ''_'', Ch CHR ''%'', Ch CHR ''+'', Ch CHR ''-'']))
      CHR ''a''"
    by code_simp
  have b: "in_cset (In (alnum @ [Ch CHR ''.'', Ch CHR ''-''])) CHR ''b''"
    by code_simp
  have c: "in_cset (In [Rng CHR ''a'' CHR ''z'', Rng CHR ''A'' CHR ''Z'']) CHR ''c''"
    by code_simp
  have "rmatch EMAIL_PATTERN True (replicate 250 CHR ''a'' @ ''@b.cc'')"
    unfolding EMAIL_PATTERN_def rmatch_local_at_domain
    using a b c
    by (intro exI [of _ "replicate 250 CHR ''a''"] exI [of _ "''b''"] exI [of _ "''cc''"]
        exI [of _ "[]"]) simp
  then show ?thesis
    unfolding form_validate_email_str by simp
qed

section \<open>Password\<close>

text \<open>The password pattern of the first/last-name variant, as a rule on the characters.\<close>

lemma rmatch_Star:
  "rmatch (Star cs # ps) at_start s \<longleftrightarrow>
     (\<exists>u v. s = u @ v \<and> (\<forall>c\<in>set u. in_cset cs c) \<and> rmatch ps (at_start \<and> u = []) v)"
  unfolding rmatch_Rep by simp

lemma rmatch_look:
  "rmatch [Star Dot, One cs] at_start s \<longleftrightarrow>
     (\<exists>u c v. s = u @ c # v \<and> (\<forall>x\<in>set u. x \<noteq> CHR 0x0A) \<and> in_cset cs c)"
  (is "?l \<longleftrightarrow> ?r")
proof
  assume ?l
  then obtain u w where uw: "s = u @ w" "\<forall>x\<in>set u. in_cset Dot x"
      "rmatch [One cs] (at_start \<and> u = []) w"
    unfolding rmatch_Star by (elim exE conjE)
  from uw(3) obtain c v where "w = c # v" "in_cset cs c"
    unfolding rmatch_One by (elim exE conjE)
  with uw show ?r
    by (intro exI [of _ u] exI [of _ c] exI [of _ v]) simp
next
  assume ?r
  then obtain u c v where h: "s = u @ c # v" "\<forall>x\<in>set u. x \<noteq> CHR 0x0A" "in_cset cs c"
    by (elim exE conjE)
  have "rmatch [One cs] (at_start \<and> u = []) (c # v)"
    unfolding rmatch_One using h(3) by simp
  with h show ?l
    unfolding rmatch_Star by (intro exI [of _ u] exI [of _ "c # v"]) simp
qed

lemma look_in_line:
  assumes "p = q @ r" "r = [] \<or> r = [CHR 0x0A]" "\<forall>x\<in>set q. x \<noteq> CHR 0x0A"
    "\<not> in_cset cs (CHR 0x0A)"
  shows "rmatch [Star Dot, One cs] at_start p \<longleftrightarrow> list_ex (in_cset cs) q"
proof
  assume "rmatch [Star Dot, One cs] at_start p"
  then obtain u c v where h: "p = u @ c # v" "in_cset cs c"
    unfolding rmatch_look by (elim exE conjE)
  then have "c \<in> set p" by simp
  moreover have "c \<noteq> CHR 0x0A" using h(2) assms(4) by auto
  ultimately have "c \<in> set q" using assms(1,2) by auto
  with h(2) show "list_ex (in_cset cs) q" unfolding list_ex_iff by (intro bexI)
next
  assume "list_ex (in_cset cs) q"
  then obtain c where c: "c \<in> set q" "in_cset cs c" unfolding list_ex_iff by (elim bexE)
  then obtain u v where q: "q = u @ c # v"
    unfolding in_set_conv_decomp by (elim exE)
  have "p = u @ c # (v @ r)" using assms(1) q by simp
  moreover have "\<forall>x\<in>set u. x \<noteq> CHR 0x0A" using assms(3) q by simp
  ultimately show "rmatch [Star Dot, One cs] at_start p"
    unfolding rmatch_look using c(2) by (intro exI [of _ u] exI [of _ c] exI [of _ "v @ r"]) simp
qed

lemma chomp_split:
  "\<exists>r. p = chomp p @ r \<and> (r = [] \<or> r = [CHR 0x0A])"
proof (cases "p \<noteq> [] \<and> last p = CHR 0x0A")
  case True
  then have c: "chomp p = butlast p" unfolding chomp_def by simp
  have "butlast p @ [last p] = p" using True by (intro append_butlast_last_id) simp
  then have "p = chomp p @ [CHR 0x0A]" using True c by simp
  then show ?thesis by (intro exI [of _ "[CHR 0x0A]"]) simp
next
  case False
  then have "chomp p = p" unfolding chomp_def by (simp only: if_False)
  then show ?thesis by (intro exI [of _ "[]"]) simp
qed

lemma chomp_unique:
  assumes "p = u @ r" "r = [] \<or> r = [CHR 0x0A]" "\<forall>x\<in>set u. x \<noteq> CHR 0x0A"
  shows "chomp p = u"
proof (cases "r = []")
  case True
  then have p: "p = u" using assms(1) by simp
  have "\<not> (u \<noteq> [] \<and> last u = CHR 0x0A)"
  proof
    assume a: "u \<noteq> [] \<and> last u = CHR 0x0A"
    then have "last u \<in> set u" by (intro last_in_set) simp
    with a assms(3) show False by auto
  qed
  then show ?thesis unfolding chomp_def p by (simp only: if_False)
next
  case False
  then have "r = [CHR 0x0A]" using assms(2) by simp
  then have "p = u @ [CHR 0x0A]" using assms(1) by simp
  then show ?thesis unfolding chomp_def by simp
qed


lemma in_lower: "in_cset (In [Rng CHR ''a'' CHR ''z'']) = is_lower"
  by (rule ext) (simp add: is_lower_def)

lemma in_upper: "in_cset (In [Rng CHR ''A'' CHR ''Z'']) = is_upper"
  by (rule ext) (simp add: is_upper_def)

lemma in_digit: "in_cset (In [Digit]) = is_digit"
  by (rule ext) simp

lemma in_password_specials: "in_cset (In password_specials) = is_password_special"
  by (rule ext) (simp add: password_specials_def is_password_special_def)

lemma in_password_chars:
  "in_cset (In ([Rng CHR ''A'' CHR ''Z'', Rng CHR ''a'' CHR ''z'', Digit] @ password_specials)) =
     password_char"
proof (rule ext)
  fix c
  have "in_cset (In password_specials) c = is_password_special c"
    by (simp only: in_password_specials)
  then show "in_cset (In ([Rng CHR ''A'' CHR ''Z'', Rng CHR ''a'' CHR ''z'', Digit] @ password_specials)) c =
      password_char c"
    by (simp add: password_char_def is_upper_def is_lower_def)
qed

lemma newline_classes:
  "\<not> password_char (CHR 0x0A)" "\<not> is_lower (CHR 0x0A)" "\<not> is_upper (CHR 0x0A)"
  "\<not> is_digit (CHR 0x0A)" "\<not> is_password_special (CHR 0x0A)"
  by (simp_all add: password_char_def is_upper_def is_lower_def is_digit_def
      is_password_special_def)

lemma PASSWORD_REGEX_iff: "rmatch PASSWORD_REGEX True p \<longleftrightarrow> password_policy (chomp p)"
proof -
  have l: "rmatch PASSWORD_REGEX True p \<longleftrightarrow>
      rmatch [Star Dot, One (In [Rng CHR ''a'' CHR ''z''])] True p \<and>
      rmatch [Star Dot, One (In [Rng CHR ''A'' CHR ''Z''])] True p \<and>
      rmatch [Star Dot, One (In [Digit])] True p \<and>
      rmatch [Star Dot, One (In password_specials)] True p \<and>
      (\<exists>u r. p = u @ r \<and> 8 \<le> length u \<and> (\<forall>c\<in>set u. password_char c) \<and>
         (r = [] \<or> r = [CHR 0x0A]))"
    unfolding PASSWORD_REGEX_def
    by (simp only: rmatch.simps(2,4) rmatch_Rep_Eol in_password_chars simp_thms)
  have looks:
      "rmatch [Star Dot, One (In [Rng CHR ''a'' CHR ''z''])] True p = list_ex is_lower u"
      "rmatch [Star Dot, One (In [Rng CHR ''A'' CHR ''Z''])] True p = list_ex is_upper u"
      "rmatch [Star Dot, One (In [Digit])] True p = list_ex is_digit u"
      "rmatch [Star Dot, One (In password_specials)] True p = list_ex is_password_special u"
    if "p = u @ r" "r = [] \<or> r = [CHR 0x0A]" "\<forall>c\<in>set u. password_char c" for u r
  proof -
    have n: "\<forall>x\<in>set u. x \<noteq> CHR 0x0A" using that(3) newline_classes(1) by auto
    show "rmatch [Star Dot, One (In [Rng CHR ''a'' CHR ''z''])] True p = list_ex is_lower u"
      using look_in_line [OF that(1,2) n, of "In [Rng CHR ''a'' CHR ''z'']" True] newline_classes
      by (simp only: in_lower simp_thms)
    show "rmatch [Star Dot, One (In [Rng CHR ''A'' CHR ''Z''])] True p = list_ex is_upper u"
      using look_in_line [OF that(1,2) n, of "In [Rng CHR ''A'' CHR ''Z'']" True] newline_classes
      by (simp only: in_upper simp_thms)
    show "rmatch [Star Dot, One (In [Digit])] True p = list_ex is_digit u"
      using look_in_line [OF that(1,2) n, of "In [Digit]" True] newline_classes
      by (simp only: in_digit simp_thms)
    show "rmatch [Star Dot, One (In password_specials)] True p = list_ex is_password_special u"
      using look_in_line [OF that(1,2) n, of "In password_specials" True] newline_classes
      by (simp only: in_password_specials simp_thms)
  qed
  show ?thesis
  proof
    assume "rmatch PASSWORD_REGEX True p"
    then obtain u r where h: "p = u @ r" "8 \<le> length u" "\<forall>c\<in>set u. password_char c"
        "r = [] \<or> r = [CHR 0x0A]"
      and k0: "rmatch [Star Dot, One (In [Rng CHR ''a'' CHR ''z''])] True p"
        "rmatch [Star Dot, One (In [Rng CHR ''A'' CHR ''Z''])] True p"
        "rmatch [Star Dot, One (In [Digit])] True p"
        "rmatch [Star Dot, One (In password_specials)] True p"
      unfolding l by (elim exE conjE)
    have n: "\<forall>x\<in>set u. x \<noteq> CHR 0x0A" using h(3) newline_classes(1) by auto
    have c: "chomp p = u" by (rule chomp_unique [OF h(1) h(4) n])
    show "password_policy (chomp p)"
      unfolding c password_policy_def list_all_iff
      using h(2,3) k0 [unfolded looks [OF h(1) h(4) h(3)]] by simp
  next
    assume a: "password_policy (chomp p)"
    obtain r where r: "p = chomp p @ r" "r = [] \<or> r = [CHR 0x0A]"
      using chomp_split [of p] by (elim exE conjE)
    have pc: "\<forall>c\<in>set (chomp p). password_char c" and len: "8 \<le> length (chomp p)"
      using a unfolding password_policy_def list_all_iff by simp_all
    have body: "\<exists>u r. p = u @ r \<and> 8 \<le> length u \<and> (\<forall>c\<in>set u. password_char c) \<and>
         (r = [] \<or> r = [CHR 0x0A])"
      using r pc len by (intro exI [of _ "chomp p"] exI [of _ r] conjI)
    show "rmatch PASSWORD_REGEX True p"
      unfolding l looks [OF r pc]
      using a body unfolding password_policy_def by (intro conjI) simp_all
  qed
qed

lemma in_form_specials: "in_cset (In form_specials) = is_form_special"
  by (rule ext) (simp add: form_specials_def is_form_special_def)

lemma form_password_first_failure:
  "form_validate_password (PyStr p) fself =
     (case form_password_failure p of
        None \<Rightarrow> (Inr True, fself)
      | Some m \<Rightarrow> (Inr False, append_error m fself))"
  unfolding form_validate_password_str in_form_specials form_password_failure_def
  by simp

lemma server_password_first_failure:
  "validate_password (PyStr p) self =
     (case server_password_failure p of
        None \<Rightarrow> (Inr True, self)
      | Some m \<Rightarrow> (Inr False, set_error ''password'' m self))"
  unfolding validate_password_str PASSWORD_REGEX_iff server_password_failure_def
  by simp

text \<open>
  Claim C2, as amended. For every password string, password validation reports at most
  one error, the one of the first rule that fails in the order of the checks (required,
  minimum length, uppercase, lowercase, digit, special character in the username variant;
  required, minimum length, maximum length, composition in the first/last-name variant);
  the rules after it are not evaluated.
\<close>

theorem password_reports_first_failure:
  "form_validate_password (PyStr p) fself =
     (case form_password_failure p of
        None \<Rightarrow> (Inr True, fself)
      | Some m \<Rightarrow> (Inr False, append_error m fself)) \<and>
   validate_password (PyStr p) self =
     (case server_password_failure p of
        None \<Rightarrow> (Inr True, self)
      | Some m \<Rightarrow> (Inr False, set_error ''password'' m self))"
  using form_password_first_failure server_password_first_failure by (intro conjI)

theorem password_reports_first_failure_witness:
  "form_password_failure ''abc'' = Some ''Password must be at least 8 characters long'' \<and>
   form_validate_password (PyStr ''abc'') init_form =
     (Inr False, append_error ''Password must be at least 8 characters long'' init_form) \<and>
   server_password_failure ''Password123'' = Some password_policy_message \<and>
   validate_password (PyStr ''Password123'') init_validator =
     (Inr False, set_error ''password'' password_policy_message init_validator)"
proof -
  have f: "form_password_failure ''abc'' = Some ''Password must be at least 8 characters long''"
    by code_simp
  have s: "server_password_failure ''Password123'' = Some password_policy_message"
    by code_simp
  from password_reports_first_failure [of "''abc''" init_form init_validator, THEN conjunct1]
    password_reports_first_failure [of "''Password123''" init_form init_validator, THEN conjunct2]
  show ?thesis
    unfolding f s by simp
qed

text \<open>
  The claim as stated fails: \<^verbatim>\<open>abc\<close> is too short and has neither an uppercase letter
  nor a digit, and both validators report the length only.
\<close>

theorem short_password_single_error:
  "length ''abc'' < 8 \<and> \<not> list_ex is_upper ''abc'' \<and> \<not> list_ex is_digit ''abc'' \<and>
   form_errors (snd (form_validate_password (PyStr ''abc'') init_form)) =
     [''Password must be at least 8 characters long''] \<and>
   errors (snd (validate_password (PyStr ''abc'') init_validator)) =
     [(''password'', ''Password must be at least 8 characters long'')]"
  by code_simp

lemma form_password_accepted:
  "form_validate_password (PyStr p) fself = (Inr True, fself') \<longleftrightarrow>
     form_password_failure p = None \<and> fself' = fself"
  unfolding form_password_first_failure by (cases "form_password_failure p") auto

lemma form_password_failure_append:
  assumes "form_password_failure p = None"
  shows "form_password_failure (p @ q) = None"
proof -
  have "p \<noteq> [] \<and> \<not> length p < 8 \<and> list_ex is_upper p \<and> list_ex is_lower p \<and>
      list_ex is_digit p \<and> list_ex is_form_special p"
    using assms unfolding form_password_failure_def by (simp split: if_splits)
  then show ?thesis
    unfolding form_password_failure_def by simp
qed

lemma form_password_any_length:
  assumes "8 \<le> n"
  shows "length (''Aa1!'' @ replicate (n - 4) CHR ''a'') = n"
    and "form_password_failure (''Aa1!'' @ replicate (n - 4) CHR ''a'') = None"
proof -
  show l: "length (''Aa1!'' @ replicate (n - 4) CHR ''a'') = n"
    using assms by simp
  have "is_upper CHR ''A''" "is_lower CHR ''a''" "is_digit CHR ''1''" "is_form_special CHR ''!''"
    by code_simp+
  then show "form_password_failure (''Aa1!'' @ replicate (n - 4) CHR ''a'') = None"
    unfolding form_password_failure_def using assms by simp
qed

text \<open>
  Claim C4, as amended. \<^verbatim>\<open>RegistrationValidator.validate_password\<close> accepts a password
  only if its length is between 8 and 128; it rejects a blank password of any length as
  required, and every password of more than 128 characters that is not blank with the
  too-long error. \<^verbatim>\<open>RegistrationForm.validate_password\<close> accepts a password only if it has
  at least 8 characters, and has no maximum length: every extension of an accepted
  password is accepted, and it accepts a password of every length from 8 on. Both reject a
  non-blank password of fewer than 8 characters with the minimum-length error.
\<close>

theorem password_length_rules:
  "(validate_password (PyStr p) self = (Inr True, self') \<longrightarrow> 8 \<le> length p \<and> length p \<le> 128) \<and>
   (128 < length p \<and> str_strip p \<noteq> [] \<longrightarrow>
      validate_password (PyStr p) self =
        (Inr False, set_error ''password'' ''Password is too long (max 128 characters)'' self) \<and>
      map_of (errors (snd (validate_password (PyStr p) self))) ''password'' =
        Some ''Password is too long (max 128 characters)'') \<and>
   (length p < 8 \<and> str_strip p \<noteq> [] \<longrightarrow>
      validate_password (PyStr p) self =
        (Inr False, set_error ''password'' ''Password must be at least 8 characters long'' self) \<and>
      map_of (errors (snd (validate_password (PyStr p) self))) ''password'' =
        Some ''Password must be at least 8 characters long'') \<and>
   (str_strip p = [] \<longrightarrow>
      validate_password (PyStr p) self =
        (Inr False, set_error ''password'' ''Password is required'' self) \<and>
      map_of (errors (snd (validate_password (PyStr p) self))) ''password'' =
        Some ''Password is required'') \<and>
   (form_validate_password (PyStr p) fself = (Inr True, fself') \<longrightarrow>
      8 \<le> length p \<and>
      form_validate_password (PyStr (p @ q)) fself = (Inr True, fself)) \<and>
   (length p < 8 \<and> p \<noteq> [] \<longrightarrow>
      form_validate_password (PyStr p) fself =
        (Inr False, append_error ''Password must be at least 8 characters long'' fself) \<and>
      get_errors (snd (form_validate_password (PyStr p) fself)) =
        get_errors fself @ [''Password must be at least 8 characters long'']) \<and>
   (8 \<le> n \<longrightarrow>
      length (''Aa1!'' @ replicate (n - 4) CHR ''a'') = n \<and>
      form_validate_password (PyStr (''Aa1!'' @ replicate (n - 4) CHR ''a'')) fself =
        (Inr True, fself))"
proof ((intro conjI; (intro impI)?))
  show "validate_password (PyStr p) self = (Inr True, self') \<Longrightarrow>
      8 \<le> length p \<and> length p \<le> 128"
    unfolding validate_password_str by (simp del: rmatch.simps split: if_splits)
next
  assume "128 < length p \<and> str_strip p \<noteq> []"
  then have "validate_password (PyStr p) self =
      (Inr False, set_error ''password'' ''Password is too long (max 128 characters)'' self)"
    unfolding validate_password_str by (simp del: rmatch.simps)
  then show "validate_password (PyStr p) self =
        (Inr False, set_error ''password'' ''Password is too long (max 128 characters)'' self) \<and>
      map_of (errors (snd (validate_password (PyStr p) self))) ''password'' =
        Some ''Password is too long (max 128 characters)''"
    by (simp only: snd_conv lookup_set_error simp_thms)
next
  assume "length p < 8 \<and> str_strip p \<noteq> []"
  then have "validate_password (PyStr p) self =
      (Inr False, set_error ''password'' ''Password must be at least 8 characters long'' self)"
    unfolding validate_password_str by (simp del: rmatch.simps)
  then show "validate_password (PyStr p) self =
        (Inr False, set_error ''password'' ''Password must be at least 8 characters long'' self) \<and>
      map_of (errors (snd (validate_password (PyStr p) self))) ''password'' =
        Some ''Password must be at least 8 characters long''"
    by (simp only: snd_conv lookup_set_error simp_thms)
next
  assume "str_strip p = []"
  then have "validate_password (PyStr p) self =
      (Inr False, set_error ''password'' ''Password is required'' self)"
    unfolding validate_password_str by (simp del: rmatch.simps)
  then show "validate_password (PyStr p) self =
        (Inr False, set_error ''password'' ''Password is required'' self) \<and>
      map_of (errors (snd (validate_password (PyStr p) self))) ''password'' =
        Some ''Password is required''"
    by (simp only: snd_conv lookup_set_error simp_thms)
next
  assume "form_validate_password (PyStr p) fself = (Inr True, fself')"
  then have n: "form_password_failure p = None"
    unfolding form_password_accepted by simp
  then have "\<not> length p < 8"
    unfolding form_password_failure_def by (simp split: if_splits)
  then show "8 \<le> length p \<and>
      form_validate_password (PyStr (p @ q)) fself = (Inr True, fself)"
    using form_password_failure_append [OF n, of q] unfolding form_password_accepted by simp
next
  assume "length p < 8 \<and> p \<noteq> []"
  then have "form_validate_password (PyStr p) fself =
      (Inr False, append_error ''Password must be at least 8 characters long'' fself)"
    unfolding form_validate_password_str by simp
  then show "form_validate_password (PyStr p) fself =
        (Inr False, append_error ''Password must be at least 8 characters long'' fself) \<and>
      get_errors (snd (form_validate_password (PyStr p) fself)) =
        get_errors fself @ [''Password must be at least 8 characters long'']"
    by (simp only: snd_conv get_errors_append_error simp_thms)
next
  assume "8 \<le> n"
  then show "length (''Aa1!'' @ replicate (n - 4) CHR ''a'') = n \<and>
      form_validate_password (PyStr (''Aa1!'' @ replicate (n - 4) CHR ''a'')) fself =
        (Inr True, fself)"
    using form_password_any_length [of n] unfolding form_password_accepted by simp
qed

theorem password_length_rules_witness:
  "8 \<le> length ''Abcdef1@'' \<and> length ''Abcdef1@'' \<le> 128 \<and>
   map_of (errors (snd (validate_password (PyStr (''A1!'' @ replicate 130 CHR ''a''))
     init_validator))) ''password'' = Some ''Password is too long (max 128 characters)'' \<and>
   map_of (errors (snd (validate_password (PyStr ''Pass1!'') init_validator))) ''password'' =
     Some ''Password must be at least 8 characters long'' \<and>
   map_of (errors (snd (validate_password (PyStr (replicate 200 CHR '' '')) init_validator)))
     ''password'' = Some ''Password is required'' \<and>
   form_validate_password (PyStr (''Password123!'' @ replicate 500 CHR ''x'')) init_form =
     (Inr True, init_form) \<and>
   get_errors (snd (form_validate_password (PyStr ''Pass1!'') init_form)) =
     get_errors init_form @ [''Password must be at least 8 characters long''] \<and>
   length (''Aa1!'' @ replicate (1000 - 4) CHR ''a'') = 1000 \<and>
   form_validate_password (PyStr (''Aa1!'' @ replicate (1000 - 4) CHR ''a'')) init_form =
     (Inr True, init_form)"
proof -
  have a: "validate_password (PyStr ''Abcdef1@'') init_validator = (Inr True, init_validator)"
    by code_simp
  have "str_strip (''A1!'' @ replicate 130 CHR ''a'') \<noteq> []"
    by code_simp
  then have b: "128 < length (''A1!'' @ replicate 130 CHR ''a'') \<and>
      str_strip (''A1!'' @ replicate 130 CHR ''a'') \<noteq> []"
    by simp
  have c: "length ''Pass1!'' < 8 \<and> str_strip ''Pass1!'' \<noteq> []"
    by code_simp
  have k: "str_strip (replicate 200 CHR '' '') = []"
    by code_simp
  have "form_password_failure ''Password123!'' = None"
    by code_simp
  then have d: "form_validate_password (PyStr ''Password123!'') init_form = (Inr True, init_form)"
    unfolding form_password_first_failure by simp
  have e: "length ''Pass1!'' < 8 \<and> ''Pass1!'' \<noteq> []"
    by simp
  have m: "(8::nat) \<le> 1000"
    by simp
  note t = password_length_rules [THEN conjunct2]
  note u = t [THEN conjunct2]
  note v = u [THEN conjunct2]
  note w = v [THEN conjunct2]
  note x = w [THEN conjunct2]
  note y = x [THEN conjunct2]
  show ?thesis
    by (intro conjI
        password_length_rules [THEN conjunct1, rule_format, OF a, THEN conjunct1]
        password_length_rules [THEN conjunct1, rule_format, OF a, THEN conjunct2]
        t [THEN conjunct1, rule_format, OF b, THEN conjunct2]
        u [THEN conjunct1, rule_format, OF c, THEN conjunct2]
        v [THEN conjunct1, rule_format, OF k, THEN conjunct2]
        w [THEN conjunct1, rule_format, OF d, THEN conjunct2]
        x [THEN conjunct1, rule_format, OF e, THEN conjunct2]
        y [rule_format, OF m, THEN conjunct1] y [rule_format, OF m, THEN conjunct2])
qed

text \<open>
  The claim as stated fails on \<^verbatim>\<open>RegistrationForm.validate_password\<close>, which has no
  maximum length: it accepts a password of 129 characters.
\<close>

theorem form_accepts_long_password:
  "length (''Aa1!'' @ replicate 125 CHR ''a'') = 129 \<and>
   form_validate_password (PyStr (''Aa1!'' @ replicate 125 CHR ''a'')) init_form =
     (Inr True, init_form)"
proof -
  have "is_upper CHR ''A''" "is_lower CHR ''a''" "is_digit CHR ''1''" "is_form_special CHR ''!''"
    by code_simp+
  then show ?thesis
    unfolding form_validate_password_str in_form_specials by simp
qed

lemma server_password_charset:
  assumes "validate_password (PyStr p) self = (Inr True, self')"
  shows "list_all password_char (chomp p)"
  using assms unfolding validate_password_str PASSWORD_REGEX_iff password_policy_def
  by (simp split: if_splits)

text \<open>
  Claim C9. In the first/last-name variant, a password with a character outside the
  letters, the digits and \<^verbatim>\<open>@$!%*?&#\<close> should be rejected. The code accepts one whose
  last character is a newline: the pattern ends in \<^verbatim>\<open>$\<close>, which also matches just
  before a final newline. By \<open>server_password_charset\<close>, every other character of an
  accepted password is in the set.
\<close>

theorem password_final_newline_accepted:
  "\<not> password_char (last (''Abcdef1!'' @ [CHR 0x0A])) \<and>
   validate_password (PyStr (''Abcdef1!'' @ [CHR 0x0A])) init_validator =
     (Inr True, init_validator)"
  by code_simp

section \<open>Sanitizer\<close>

text \<open>Joining the words of a string with single spaces collapses and trims it.\<close>

lemma str_strip_rstrip_lstrip: "str_strip s = rstrip (lstrip s)"
  by (simp add: str_strip_def rstrip_def lstrip_def)

lemma rstrip_Nil_iff: "rstrip s = [] \<longleftrightarrow> (\<forall>c\<in>set s. is_space c)"
  by (simp add: rstrip_def dropWhile_eq_Nil_conv)

lemma rstrip_append:
  "rstrip (a @ b) = (if rstrip b = [] then rstrip a else a @ rstrip b)"
  unfolding rstrip_Nil_iff by (simp add: rstrip_def dropWhile_append)

lemma rstrip_no_space:
  assumes "\<forall>c\<in>set w. \<not> is_space c"
  shows "rstrip w = w"
proof -
  have "dropWhile is_space (rev w) = rev w"
    using assms by (cases "rev w") (auto simp: rev_eq_Cons_iff)
  then show ?thesis by (simp add: rstrip_def)
qed

lemma split_from_words:
  assumes "\<forall>c\<in>set a. \<not> is_space c"
  shows "\<forall>w\<in>set (split_from a cs). w \<noteq> [] \<and> (\<forall>c\<in>set w. \<not> is_space c)"
  using assms
proof (induction cs arbitrary: a)
  case Nil
  then show ?case by simp
next
  case (Cons c cs)
  have e: "\<forall>w\<in>set (split_from [] cs). w \<noteq> [] \<and> (\<forall>c\<in>set w. \<not> is_space c)"
    by (rule Cons.IH) simp
  show ?case
  proof (cases "is_space c")
    case True
    then show ?thesis using e Cons.prems by simp
  next
    case False
    then have "\<forall>w\<in>set (split_from (a @ [c]) cs). w \<noteq> [] \<and> (\<forall>c\<in>set w. \<not> is_space c)"
      using Cons.prems by (intro Cons.IH) simp
    then show ?thesis using False by simp
  qed
qed

lemma str_join_Nil_iff:
  assumes "\<forall>w\<in>set ws. w \<noteq> []"
  shows "str_join sep ws = [] \<longleftrightarrow> ws = []"
  using assms by (induction sep ws rule: str_join.induct) auto

lemma str_join_Cons:
  "str_join sep (w # ws) = (if ws = [] then w else w @ sep @ str_join sep ws)"
  by (cases ws) auto

lemma rstrip_collapse:
  assumes "\<forall>c\<in>set w. \<not> is_space c"
  shows "rstrip (w @ collapse_from (w = []) cs) = str_join '' '' (split_from w cs)"
  using assms
proof (induction cs arbitrary: w)
  case Nil
  then show ?case by (simp add: rstrip_no_space)
next
  case (Cons c cs)
  show ?case
  proof (cases "is_space c")
    case False
    have "rstrip ((w @ [c]) @ collapse_from ((w @ [c]) = []) cs) =
        str_join '' '' (split_from (w @ [c]) cs)"
      using Cons.prems False by (intro Cons.IH) simp
    then show ?thesis using False by simp
  next
    case True
    have ih: "rstrip (collapse_from True cs) = str_join '' '' (split_from [] cs)"
      using Cons.IH [of "[]"] by simp
    show ?thesis
    proof (cases "w = []")
      case True
      then show ?thesis using \<open>is_space c\<close> ih by simp
    next
      case False
      have ne: "(str_join '' '' (split_from [] cs) = []) = (split_from [] cs = [])"
        using split_from_words [of "[]" cs] by (intro str_join_Nil_iff) simp
      have sp: "\<not> is_space (last w)" using False Cons.prems by simp
      have "rstrip (w @ collapse_from (w = []) (c # cs)) =
          rstrip ((w @ '' '') @ collapse_from True cs)"
        using False \<open>is_space c\<close> by simp
      also have "\<dots> = (if rstrip (collapse_from True cs) = [] then rstrip (w @ '' '')
          else (w @ '' '') @ rstrip (collapse_from True cs))"
        by (rule rstrip_append)
      also have "rstrip (w @ '' '') = w"
        using rstrip_append [of w "'' ''"] rstrip_no_space [OF Cons.prems]
        by (simp add: rstrip_Nil_iff is_space_code py_ord_literal)
      finally show ?thesis
        using False \<open>is_space c\<close> unfolding ih ne by (simp add: str_join_Cons)
    qed
  qed
qed

lemma rstrip_idem: "rstrip (rstrip s) = rstrip s"
  by (simp add: rstrip_def)

lemma lstrip_Cons: "lstrip (c # cs) = (if is_space c then lstrip cs else c # cs)"
  by (simp add: lstrip_def)

lemma lstrip_Nil: "lstrip [] = []"
  by (simp add: lstrip_def)

lemma lstrip_join:
  assumes "\<forall>w\<in>set ws. w \<noteq> [] \<and> (\<forall>c\<in>set w. \<not> is_space c)"
  shows "lstrip (str_join '' '' ws) = str_join '' '' ws"
proof (cases ws)
  case Nil
  then show ?thesis by (simp add: lstrip_Nil)
next
  case (Cons w ws')
  then obtain c w' where w: "w = c # w'" "\<not> is_space c"
    using assms by (cases w) auto
  then show ?thesis
    using Cons by (simp add: str_join_Cons lstrip_Cons)
qed

lemma collapse_from_False:
  "collapse_from False cs =
     (if cs \<noteq> [] \<and> is_space (hd cs) then CHR '' '' # collapse_from True cs
      else collapse_from True cs)"
  by (cases cs) simp_all

lemma space_is_space: "is_space CHR '' ''"
  by (simp add: is_space_code py_ord_literal)

lemma join_split_eq_trim_collapse:
  "str_join '' '' (str_split t) = trim (collapse_whitespace t)"
proof -
  let ?J = "str_join '' '' (split_from [] t)"
  have w: "\<forall>w\<in>set (split_from [] t). w \<noteq> [] \<and> (\<forall>c\<in>set w. \<not> is_space c)"
    by (rule split_from_words) simp
  have r: "rstrip (collapse_from True t) = ?J"
    using rstrip_collapse [of "[]" t] by simp
  have l: "lstrip ?J = ?J"
    by (rule lstrip_join [OF w])
  show ?thesis
  proof (cases "t \<noteq> [] \<and> is_space (hd t)")
    case True
    then have "collapse_from False t = '' '' @ collapse_from True t"
      by (simp add: collapse_from_False)
    then have "rstrip (collapse_from False t) = (if ?J = [] then [] else '' '' @ ?J)"
      using rstrip_append [of "'' ''" "collapse_from True t"] space_is_space
      by (simp add: r rstrip_Nil_iff)
    then show ?thesis
      unfolding str_split_def trim_def collapse_whitespace_def
      using l space_is_space by (simp add: lstrip_Cons lstrip_Nil)
  next
    case False
    then have "collapse_from False t = collapse_from True t"
      by (simp only: collapse_from_False if_False)
    then show ?thesis
      unfolding str_split_def trim_def collapse_whitespace_def using r l by simp
  qed
qed

lemma str_strip_join_split: "str_strip (str_join '' '' (str_split t)) = str_join '' '' (str_split t)"
proof -
  have w: "\<forall>w\<in>set (split_from [] t). w \<noteq> [] \<and> (\<forall>c\<in>set w. \<not> is_space c)"
    by (rule split_from_words) simp
  have "rstrip (str_join '' '' (split_from [] t)) = str_join '' '' (split_from [] t)"
    using rstrip_collapse [of "[]" t] rstrip_idem [of "collapse_from True t"] by simp
  then show ?thesis
    unfolding str_split_def str_strip_rstrip_lstrip lstrip_join [OF w] .
qed

lemma in_control_chars: "in_cset CONTROL_CHARS c = is_control c"
  unfolding CONTROL_CHARS_def in_cset_code is_control_def
  by (simp add: py_ord_literal) arith

lemma re_sub_control: "re_sub_class CONTROL_CHARS [] (PyStr s) = Inr (strip_control s)"
proof -
  have "concat (map (\<lambda>c. if P c then [] else [c]) s) = filter (\<lambda>c. \<not> P c) s" for P :: "char \<Rightarrow> bool"
    by (induction s) simp_all
  then show ?thesis
    by (simp add: strip_control_def in_control_chars)
qed

lemma sanitize_input_str:
  "sanitize_input (PyStr s) = Inr (str_join '' '' (str_split (strip_control s)))"
proof (cases "s = []")
  case True
  then show ?thesis
    by (simp add: sanitize_input_def strip_control_def str_split_def)
next
  case False
  then show ?thesis
    by (simp add: sanitize_input_def re_sub_control str_strip_join_split del: re_sub_class.simps)
qed

text \<open>
  Claim C8. For every input string, the sanitizer returns the string with the control
  characters (code points below 0x20, and 0x7F) removed, every run of whitespace
  collapsed to a single space, and the whitespace at both ends trimmed; on an input with a
  NUL character and repeated spaces it collapses and trims accordingly.
\<close>

theorem sanitize_input_contract:
  "sanitize_input (PyStr s) = Inr (trim (collapse_whitespace (strip_control s))) \<and>
   sanitize_input (PyStr (''Hello'' @ [CHR 0x00] @ ''World'' @ [CHR 0x1F] @ ''  Test  '')) =
     Inr ''HelloWorld Test''"
proof
  show "sanitize_input (PyStr s) = Inr (trim (collapse_whitespace (strip_control s)))"
    unfolding sanitize_input_str join_split_eq_trim_collapse ..
  show "sanitize_input (PyStr (''Hello'' @ [CHR 0x00] @ ''World'' @ [CHR 0x1F] @ ''  Test  '')) =
     Inr ''HelloWorld Test''"
    by code_simp
qed

lemma split_from_word:
  assumes "\<forall>c\<in>set w. \<not> is_space c"
  shows "split_from a (w @ cs) = split_from (a @ w) cs"
  using assms by (induction w arbitrary: a) simp_all

lemma split_join:
  assumes "\<forall>w\<in>set ws. w \<noteq> [] \<and> (\<forall>c\<in>set w. \<not> is_space c)"
  shows "split_from [] (str_join '' '' ws) = ws"
  using assms
proof (induction "'' ''" ws rule: str_join.induct)
  case 1
  then show ?case by simp
next
  case (2 w)
  then have "split_from [] (w @ []) = split_from ([] @ w) []"
    by (intro split_from_word) simp
  then show ?case using 2 by simp
next
  case (3 w x xs)
  have "split_from [] (w @ ('' '' @ str_join '' '' (x # xs))) =
      split_from ([] @ w) ('' '' @ str_join '' '' (x # xs))"
    using 3(2) by (intro split_from_word) simp
  also have "\<dots> = w # split_from [] (str_join '' '' (x # xs))"
    using 3(2) space_is_space by simp
  also have "split_from [] (str_join '' '' (x # xs)) = x # xs"
    using 3(2) by (intro 3(1)) simp
  finally show ?case by simp
qed

lemma set_split_from: "\<Union> (set ` set (split_from a cs)) \<subseteq> set a \<union> set cs"
proof (induction cs arbitrary: a)
  case Nil
  then show ?case by simp
next
  case (Cons c cs)
  show ?case
    using Cons [of "[]"] Cons [of "a @ [c]"] by auto
qed

lemma set_str_join: "set (str_join sep ws) \<subseteq> \<Union> (set ` set ws) \<union> set sep"
  by (induction sep ws rule: str_join.induct) auto

lemma space_not_control: "\<not> is_control CHR '' ''"
  by (simp add: is_control_def py_ord_literal)

lemma strip_control_sanitized:
  "strip_control (str_join '' '' (str_split (strip_control s))) =
     str_join '' '' (str_split (strip_control s))"
proof -
  have "set (str_join '' '' (str_split (strip_control s))) \<subseteq> set (strip_control s) \<union> {CHR '' ''}"
    using set_str_join [of "'' ''" "str_split (strip_control s)"]
      set_split_from [of "[]" "strip_control s"]
    unfolding str_split_def by auto
  then have "\<forall>c\<in>set (str_join '' '' (str_split (strip_control s))). \<not> is_control c"
    using space_not_control by (auto simp: strip_control_def)
  then show ?thesis
    unfolding strip_control_def [of "str_join '' '' (str_split (strip_control s))"]
    by (simp add: filter_id_conv)
qed

text \<open>
  Claim C10. The sanitizer is idempotent: for every string \<open>s\<close>,
  \<^verbatim>\<open>sanitize_input(s)\<close> returns a string \<open>r\<close>, and \<^verbatim>\<open>sanitize_input(r)\<close> returns \<open>r\<close>.
\<close>

theorem sanitize_input_idempotent:
  "\<exists>r. sanitize_input (PyStr s) = Inr r \<and> sanitize_input (PyStr r) = Inr r"
proof -
  let ?t = "strip_control s"
  let ?r = "str_join '' '' (str_split ?t)"
  have w: "\<forall>w\<in>set (split_from [] ?t). w \<noteq> [] \<and> (\<forall>c\<in>set w. \<not> is_space c)"
    by (rule split_from_words) simp
  have "str_split ?r = str_split ?t"
    unfolding str_split_def by (rule split_join [OF w])
  then have "sanitize_input (PyStr ?r) = Inr ?r"
    unfolding sanitize_input_str [of ?r] strip_control_sanitized by simp
  then show ?thesis
    using sanitize_input_str [of s] by (intro exI [of _ ?r] conjI)
qed

section \<open>Exceptions\<close>

text \<open>A check raises exactly on a number other than zero where it expects text.\<close>

lemma nonzero_dict_get:
  "\<not> nonzero_number d \<Longrightarrow> nonzero_number (dict_get data k d) = number_at data k"
  by (simp add: dict_get_def number_at_def split: option.splits)

lemma validate_required_outcome:
  "validate_required f v self = (Inl e, s) \<Longrightarrow> nonzero_number v \<and> e = AttributeError"
  "validate_required f v self = (Inr b, s) \<Longrightarrow> \<not> nonzero_number v"
  "validate_required f v self = (Inr True, s) \<Longrightarrow> \<exists>t. v = PyStr t"
  by (cases v; simp add: validate_required_def split: if_splits)+

lemma validate_name_outcome:
  "validate_name f v self = (Inl e, s) \<Longrightarrow> nonzero_number v \<and> e = AttributeError"
  "validate_name f v self = (Inr b, s) \<Longrightarrow> \<not> nonzero_number v"
  unfolding validate_name_def
  by (auto simp del: rmatch.simps split: prod.splits sum.splits bool.splits if_splits
      dest: validate_required_outcome)

lemma validate_email_outcome:
  "validate_email v self = (Inl e, s) \<Longrightarrow> nonzero_number v \<and> e = AttributeError"
  "validate_email v self = (Inr b, s) \<Longrightarrow> \<not> nonzero_number v"
  unfolding validate_email_def
  by (auto simp del: rmatch.simps split: prod.splits sum.splits bool.splits if_splits
      dest: validate_required_outcome)

lemma validate_password_outcome:
  "validate_password v self = (Inl e, s) \<Longrightarrow> nonzero_number v \<and> e = AttributeError"
  "validate_password v self = (Inr b, s) \<Longrightarrow> \<not> nonzero_number v"
  unfolding validate_password_def
  by (auto simp del: rmatch.simps split: prod.splits sum.splits bool.splits if_splits
      dest: validate_required_outcome)

lemma validate_password_match_outcome:
  "validate_password_match p v self = (Inl e, s) \<Longrightarrow> nonzero_number v \<and> e = AttributeError"
  "validate_password_match p v self = (Inr b, s) \<Longrightarrow> \<not> nonzero_number v"
  unfolding validate_password_match_def
  by (auto split: prod.splits sum.splits bool.splits if_splits dest: validate_required_outcome)

lemma validate_username_outcome:
  "validate_username v self = (Inl e, s) \<Longrightarrow> nonzero_number v \<and> e = TypeError"
  "validate_username v self = (Inr b, s) \<Longrightarrow> \<not> nonzero_number v"
  unfolding validate_username_def
  by (cases v; simp del: rmatch.simps split: if_splits bool.splits)+

lemma form_validate_email_outcome:
  "form_validate_email v self = (Inl e, s) \<Longrightarrow> nonzero_number v \<and> e = TypeError"
  "form_validate_email v self = (Inr b, s) \<Longrightarrow> \<not> nonzero_number v"
  unfolding form_validate_email_def
  by (cases v; simp del: rmatch.simps split: if_splits bool.splits)+

lemma form_validate_password_cases:
  "\<not> isl (fst (form_validate_password (PyStr t) self))"
  "form_validate_password PyNone self = (Inr False, append_error ''Password is required'' self)"
  "form_validate_password (PyInt n) self =
     (if n = 0 then (Inr False, append_error ''Password is required'' self)
      else (Inl TypeError, self))"
  "form_validate_password (PyFloat f) self =
     (if float_is_zero f then (Inr False, append_error ''Password is required'' self)
      else (Inl TypeError, self))"
proof -
  show "\<not> isl (fst (form_validate_password (PyStr t) self))"
    unfolding form_validate_password_str by simp
  show "form_validate_password PyNone self =
      (Inr False, append_error ''Password is required'' self)"
    by (simp add: form_validate_password_def)
  show "form_validate_password (PyInt n) self =
     (if n = 0 then (Inr False, append_error ''Password is required'' self)
      else (Inl TypeError, self))"
    by (simp add: form_validate_password_def)
  show "form_validate_password (PyFloat f) self =
     (if float_is_zero f then (Inr False, append_error ''Password is required'' self)
      else (Inl TypeError, self))"
    by (simp add: form_validate_password_def)
qed

lemma form_validate_password_outcome:
  "form_validate_password v self = (Inl e, s) \<Longrightarrow> nonzero_number v \<and> e = TypeError"
  "form_validate_password v self = (Inr b, s) \<Longrightarrow> \<not> nonzero_number v"
proof -
  assume a: "form_validate_password v self = (Inl e, s)"
  show "nonzero_number v \<and> e = TypeError"
  proof (cases v)
    case PyNone
    then show ?thesis using a by (simp add: form_validate_password_cases(2))
  next
    case (PyStr t)
    then show ?thesis using a form_validate_password_cases(1) [of t self] by simp
  next
    case (PyInt n)
    then show ?thesis using a by (simp add: form_validate_password_cases(3) split: if_splits)
  next
    case (PyFloat f)
    then show ?thesis using a by (simp add: form_validate_password_cases(4) split: if_splits)
  qed
next
  assume a: "form_validate_password v self = (Inr b, s)"
  show "\<not> nonzero_number v"
  proof (cases v)
    case (PyInt n)
    then show ?thesis using a by (simp add: form_validate_password_cases(3) split: if_splits)
  next
    case (PyFloat f)
    then show ?thesis using a by (simp add: form_validate_password_cases(4) split: if_splits)
  qed simp_all
qed

lemma validate_password_confirmation_outcome:
  "validate_password_confirmation p v self \<noteq> (Inl e, s)"
  unfolding validate_password_confirmation_def by simp

lemma py_int_error:
  "py_int lim v = Inl e \<Longrightarrow>
     (if infinite_float v then e = OverflowError else e = ValueError \<or> e = TypeError)"
proof (cases v)
  case (PyFloat f)
  assume "py_int lim v = Inl e"
  then show ?thesis using PyFloat by (cases f) auto
qed (auto split: option.splits)

lemma py_int_infinite: "infinite_float v \<Longrightarrow> py_int lim v = Inl OverflowError"
  by (induction v rule: infinite_float.induct) simp_all

lemma validate_age_outcome:
  "validate_age lim v self = (Inl e, s) \<Longrightarrow> infinite_float v \<and> e = OverflowError"
  "validate_age lim v self = (Inr b, s) \<Longrightarrow> \<not> infinite_float v"
proof -
  assume "validate_age lim v self = (Inl e, s)"
  then show "infinite_float v \<and> e = OverflowError"
    unfolding validate_age_def using py_int_error [of lim v]
    by (auto split: if_splits sum.splits)
next
  assume "validate_age lim v self = (Inr b, s)"
  then show "\<not> infinite_float v"
    unfolding validate_age_def using py_int_infinite [of v lim]
    by (auto split: if_splits sum.splits)
qed

lemma validate_phone_outcome:
  "validate_phone v self = (Inl e, s) \<Longrightarrow> nonzero_number v \<and> e = TypeError"
  "validate_phone v self = (Inr b, s) \<Longrightarrow> \<not> nonzero_number v"
  unfolding validate_phone_def
  by (cases v; simp del: rmatch.simps split: if_splits bool.splits)+

lemma validate_registration_outcome:
  "validate_registration data self = (Inl e, s) \<Longrightarrow>
     (nonzero_number (dict_get data ''first_name'' (PyStr [])) \<or>
      nonzero_number (dict_get data ''last_name'' (PyStr [])) \<or>
      nonzero_number (dict_get data ''email'' (PyStr [])) \<or>
      nonzero_number (dict_get data ''password'' (PyStr [])) \<or>
      nonzero_number (dict_get data ''confirm_password'' (PyStr []))) \<and> e = AttributeError"
  "validate_registration data self = (Inr r, s) \<Longrightarrow>
     \<not> (nonzero_number (dict_get data ''first_name'' (PyStr [])) \<or>
      nonzero_number (dict_get data ''last_name'' (PyStr [])) \<or>
      nonzero_number (dict_get data ''email'' (PyStr [])) \<or>
      nonzero_number (dict_get data ''password'' (PyStr [])) \<or>
      nonzero_number (dict_get data ''confirm_password'' (PyStr [])))"
  unfolding validate_registration_def Let_def
  by (auto split: prod.splits sum.splits
      dest!: validate_name_outcome validate_email_outcome validate_password_outcome
        validate_password_match_outcome)


lemma form_validate_outcome:
  "form_validate lim data self = (Inl e, s) \<Longrightarrow>
     (nonzero_number (dict_get data ''username'' (PyStr [])) \<or>
      nonzero_number (dict_get data ''email'' (PyStr [])) \<or>
      nonzero_number (dict_get data ''password'' (PyStr [])) \<or>
      nonzero_number (dict_get data ''phone'' PyNone)) \<and> e = TypeError \<or>
     infinite_float (dict_get data ''age'' PyNone) \<and> e = OverflowError"
  "form_validate lim data self = (Inr r, s) \<Longrightarrow>
     \<not> (nonzero_number (dict_get data ''username'' (PyStr [])) \<or>
      nonzero_number (dict_get data ''email'' (PyStr [])) \<or>
      nonzero_number (dict_get data ''password'' (PyStr [])) \<or>
      nonzero_number (dict_get data ''phone'' PyNone)) \<and>
     \<not> infinite_float (dict_get data ''age'' PyNone)"
  unfolding form_validate_def Let_def
  by (auto split: prod.splits sum.splits
      simp: validate_password_confirmation_outcome
      dest!: validate_username_outcome form_validate_email_outcome form_validate_password_outcome
        validate_age_outcome validate_phone_outcome)

lemma infinite_dict_get: "infinite_float (dict_get data k PyNone) = infinite_at data k"
  by (simp add: dict_get_def infinite_at_def split: option.splits)

lemma text_fields_number:
  "list_ex (number_at data) server_text_fields \<longleftrightarrow>
     nonzero_number (dict_get data ''first_name'' (PyStr [])) \<or>
     nonzero_number (dict_get data ''last_name'' (PyStr [])) \<or>
     nonzero_number (dict_get data ''email'' (PyStr [])) \<or>
     nonzero_number (dict_get data ''password'' (PyStr [])) \<or>
     nonzero_number (dict_get data ''confirm_password'' (PyStr []))"
  "list_ex (number_at data) form_text_fields \<longleftrightarrow>
     nonzero_number (dict_get data ''username'' (PyStr [])) \<or>
     nonzero_number (dict_get data ''email'' (PyStr [])) \<or>
     nonzero_number (dict_get data ''password'' (PyStr [])) \<or>
     nonzero_number (dict_get data ''phone'' PyNone)"
  unfolding server_text_fields_def form_text_fields_def
  by (simp_all add: nonzero_dict_get)



section \<open>Validity flag\<close>

text \<open>
  Claim C1. For every input map, the validity flag of a full validation call equals the
  emptiness of the error collection: when \<^verbatim>\<open>validate_registration\<close> returns
  \<open>(valid, errs)\<close>, \<open>valid\<close> holds exactly when \<open>errs\<close> is empty, and when
  \<^verbatim>\<open>RegistrationForm.validate\<close> returns \<open>ok\<close>, \<open>ok\<close> holds exactly when
  \<^verbatim>\<open>get_errors()\<close> is empty afterwards. The call returns such an outcome for every input
  map with no number other than zero in a text field and no infinite age.
\<close>

theorem valid_iff_no_errors:
  "(validate_registration data self = (Inr (valid, errs), self') \<longrightarrow> valid = (errs = [])) \<and>
   (form_validate lim fdata fself = (Inr ok, fself') \<longrightarrow> ok = (get_errors fself' = [])) \<and>
   (\<not> list_ex (number_at data) server_text_fields \<longrightarrow>
      (\<exists>valid errs self'. validate_registration data self = (Inr (valid, errs), self') \<and>
         valid = (errs = []))) \<and>
   (\<not> list_ex (number_at fdata) form_text_fields \<and> \<not> infinite_at fdata ''age'' \<longrightarrow>
      (\<exists>ok fself'. form_validate lim fdata fself = (Inr ok, fself') \<and>
         ok = (get_errors fself' = [])))"
proof (intro conjI impI)
  assume "validate_registration data self = (Inr (valid, errs), self')"
  then show "valid = (errs = [])" by (rule validate_registration_flag)
next
  assume "form_validate lim fdata fself = (Inr ok, fself')"
  then show "ok = (get_errors fself' = [])" by (rule form_validate_flag)
next
  assume n: "\<not> list_ex (number_at data) server_text_fields"
  obtain x s where v: "validate_registration data self = (x, s)"
    by (cases "validate_registration data self")
  show "\<exists>valid errs self'. validate_registration data self = (Inr (valid, errs), self') \<and>
      valid = (errs = [])"
  proof (cases x)
    case (Inl e)
    then show ?thesis
      using validate_registration_outcome(1) [of data self e s] v n
      unfolding text_fields_number by simp
  next
    case (Inr r)
    obtain valid errs where r: "r = (valid, errs)" by (cases r)
    have "validate_registration data self = (Inr (valid, errs), s)"
      using v Inr r by simp
    then show ?thesis
      using validate_registration_flag [of data self valid errs s] by (intro exI conjI)
  qed
next
  assume n: "\<not> list_ex (number_at fdata) form_text_fields \<and> \<not> infinite_at fdata ''age''"
  obtain x s where v: "form_validate lim fdata fself = (x, s)"
    by (cases "form_validate lim fdata fself")
  show "\<exists>ok fself'. form_validate lim fdata fself = (Inr ok, fself') \<and>
      ok = (get_errors fself' = [])"
  proof (cases x)
    case (Inl e)
    then show ?thesis
      using form_validate_outcome(1) [of lim fdata fself e s] v n
      unfolding text_fields_number infinite_dict_get by simp
  next
    case (Inr ok)
    then have "form_validate lim fdata fself = (Inr ok, s)"
      using v by simp
    then show ?thesis
      using form_validate_flag [of lim fdata fself ok s] by (intro exI conjI)
  qed
qed

theorem valid_iff_no_errors_witness:
  "fst (validate_registration Map.empty init_validator) =
     Inr (False,
       [(''first_name'', ''First Name is required''),
        (''last_name'', ''Last Name is required''),
        (''email'', ''Email is required''),
        (''password'', ''Password is required''),
        (''confirm_password'', ''Confirm Password is required'')]) \<and>
   fst (form_validate 4300 Map.empty init_form) = Inr False \<and>
   get_errors (snd (form_validate 4300 Map.empty init_form)) \<noteq> [] \<and>
   (\<exists>valid errs self'.
      validate_registration Map.empty init_validator = (Inr (valid, errs), self') \<and>
      valid = (errs = [])) \<and>
   (\<exists>ok fself'. form_validate 4300 Map.empty init_form = (Inr ok, fself') \<and>
      ok = (get_errors fself' = []))"
proof -
  let ?E = "[(''first_name'', ''First Name is required''),
        (''last_name'', ''Last Name is required''),
        (''email'', ''Email is required''),
        (''password'', ''Password is required''),
        (''confirm_password'', ''Confirm Password is required'')]"
  have s: "fst (validate_registration Map.empty init_validator) = Inr (False, ?E)"
    by code_simp
  have f: "fst (form_validate 4300 Map.empty init_form) = Inr False"
    by code_simp
  have s': "validate_registration Map.empty init_validator =
      (Inr (False, ?E), snd (validate_registration Map.empty init_validator))"
    using s by (simp add: prod_eq_iff)
  have f': "form_validate 4300 Map.empty init_form =
      (Inr False, snd (form_validate 4300 Map.empty init_form))"
    using f by (simp add: prod_eq_iff)
  have ns: "\<not> list_ex (number_at Map.empty) server_text_fields"
    by code_simp
  have nf: "\<not> list_ex (number_at Map.empty) form_text_fields \<and> \<not> infinite_at Map.empty ''age''"
    by code_simp
  note t = valid_iff_no_errors [of Map.empty init_validator False ?E
      "snd (validate_registration Map.empty init_validator)" 4300 Map.empty init_form False
      "snd (form_validate 4300 Map.empty init_form)"]
  note u = t [THEN conjunct2]
  note v = u [THEN conjunct2]
  have "False = (get_errors (snd (form_validate 4300 Map.empty init_form)) = [])"
    by (rule u [THEN conjunct1, rule_format, OF f'])
  then have g: "get_errors (snd (form_validate 4300 Map.empty init_form)) \<noteq> []"
    by simp
  show ?thesis
    by (intro conjI s f g v [THEN conjunct1, rule_format, OF ns]
        v [THEN conjunct2, rule_format, OF nf])
qed

section \<open>Input types\<close>




end
